theory Spec2Isabelle
  imports
    Main
    "HOL-Library.Char_ord"
    "HOL-Library.List_Lexorder"
    "HOL-Library.Multiset"
begin

chapter \<open>f0: the content caches and their validity tests\<close>

text \<open>
  A shallow embedding of the caching code of f0:
  \<^item> the brand configuration cache, \<^verbatim>\<open>getBrandConfig\<close> (\<^verbatim>\<open>server/utils/brand.ts\<close>);
  \<^item> the \<^verbatim>\<open>/llms.txt\<close> cache, \<^verbatim>\<open>computeContentHash\<close> and \<^verbatim>\<open>getCachedLlmsTxt\<close> (the
    module \<^verbatim>\<open>llms-cache\<close>, which follows the brand module in the same source file);
  \<^item> the directory configuration resolver, \<^verbatim>\<open>resolveDirectoryConfig\<close>
    (\<^verbatim>\<open>server/utils/config.ts\<close>);
  \<^item> the image processing pipeline, \<^verbatim>\<open>parseImageOptions\<close> and \<^verbatim>\<open>getProcessedImage\<close> (the
    module \<^verbatim>\<open>image-processor\<close>, \<^verbatim>\<open>unnamed/part_003\<close>).

  Module-level variables become records that every operation takes and returns. What the
  code obtains from outside is an argument of the operation: the filesystem, the clock,
  the environment variables, and the library functions \<^verbatim>\<open>yaml.parse\<close>, \<^verbatim>\<open>sharp\<close>, the MD5
  digest and \<^verbatim>\<open>generateLlmText\<close>. An exception is a value: \<^verbatim>\<open>None\<close> or \<^verbatim>\<open>Inl\<close> of an
  error. Asynchronous functions are modelled as their results, a rejected promise as an
  exception.
\<close>

section \<open>Definitions\<close>

subsection \<open>Strings and paths\<close>

text \<open>
  JavaScript strings are modelled as \<^typ>\<open>string\<close>; \<^verbatim>\<open>startsWith\<close>, \<^verbatim>\<open>endsWith\<close> and
  \<^verbatim>\<open>Array.prototype.join\<close> are written out.
\<close>

definition startsWith :: "string \<Rightarrow> string \<Rightarrow> bool" where
  "startsWith s p = (take (length p) s = p)"

definition endsWith :: "string \<Rightarrow> string \<Rightarrow> bool" where
  "endsWith s p = (length p \<le> length s \<and> drop (length s - length p) s = p)"

fun joinWith :: "string \<Rightarrow> string list \<Rightarrow> string" where
  "joinWith sep [] = []"
| "joinWith sep [x] = x"
| "joinWith sep (x # y # ys) = x @ sep @ joinWith sep (y # ys)"

text \<open>
  \<^verbatim>\<open>path.join(dir, name)\<close> for a directory path in normal form (no trailing slash, not
  empty) and a single path segment: the two joined by one slash.
\<close>

definition pathJoin :: "string \<Rightarrow> string \<Rightarrow> string" where
  "pathJoin dir name = dir @ ''/'' @ name"

text \<open>Decimal rendering of a number, as a template literal or \<^verbatim>\<open>String\<close> produces it.\<close>

definition digitChar :: "nat \<Rightarrow> char" where
  "digitChar d = ''0123456789'' ! d"

function showNat :: "nat \<Rightarrow> string" where
  "showNat n = (if n < 10 then [digitChar n] else showNat (n div 10) @ [digitChar (n mod 10)])"
  by pat_completeness auto
termination
  by (relation "measure id") auto

declare showNat.simps [simp del]

definition showInt :: "int \<Rightarrow> string" where
  "showInt i = (if i < 0 then ''-'' @ showNat (nat (- i)) else showNat (nat i))"

subsection \<open>JavaScript values\<close>

text \<open>
  What \<^verbatim>\<open>yaml.parse\<close> can return: scalars, sequences and mappings. Numbers are
  integers here. \<^verbatim>\<open>JUndefined\<close> is what reading a missing property gives.
\<close>

datatype jsval =
    JUndefined
  | JNull
  | JBool bool
  | JNum int
  | JStr string
  | JArr "jsval list"
  | JObj "(string \<times> jsval) list"

fun truthy :: "jsval \<Rightarrow> bool" where
  "truthy JUndefined = False"
| "truthy JNull = False"
| "truthy (JBool b) = b"
| "truthy (JNum n) = (n \<noteq> 0)"
| "truthy (JStr s) = (s \<noteq> [])"
| "truthy (JArr xs) = True"
| "truthy (JObj kvs) = True"

text \<open>\<^verbatim>\<open>a || b\<close>\<close>

definition jsOr :: "jsval \<Rightarrow> jsval \<Rightarrow> jsval" where
  "jsOr a b = (if truthy a then a else b)"

text \<open>
  \<^verbatim>\<open>v.key\<close> for a value that is neither \<^verbatim>\<open>null\<close> nor \<^verbatim>\<open>undefined\<close>, and a key that
  is not a built-in property of strings or arrays (all keys read below are such).
\<close>

fun getProp :: "jsval \<Rightarrow> string \<Rightarrow> jsval" where
  "getProp (JObj kvs) k = (case map_of kvs k of Some v \<Rightarrow> v | None \<Rightarrow> JUndefined)"
| "getProp v k = JUndefined"

text \<open>\<^verbatim>\<open>'key' in v\<close> for a value with \<^verbatim>\<open>typeof v === 'object'\<close> that is not null.\<close>

fun hasProp :: "string \<Rightarrow> jsval \<Rightarrow> bool" where
  "hasProp k (JObj kvs) = (map_of kvs k \<noteq> None)"
| "hasProp k v = False"

fun isObjectType :: "jsval \<Rightarrow> bool" where
  "isObjectType (JArr xs) = True"
| "isObjectType (JObj kvs) = True"
| "isObjectType JNull = True"
| "isObjectType v = False"

text \<open>
  \<^verbatim>\<open>String(v)\<close>. \<^verbatim>\<open>None\<close> is the TypeError raised for a mapping that has a key
  \<^verbatim>\<open>toString\<close> of its own (its value, coming from YAML, is not callable). An array
  joins its elements with commas, \<^verbatim>\<open>null\<close> and \<^verbatim>\<open>undefined\<close> elements as empty
  strings.
\<close>

fun jsString :: "jsval \<Rightarrow> string option" where
  "jsString JUndefined = Some ''undefined''"
| "jsString JNull = Some ''null''"
| "jsString (JBool b) = Some (if b then ''true'' else ''false'')"
| "jsString (JNum n) = Some (showInt n)"
| "jsString (JStr s) = Some s"
| "jsString (JArr xs) =
     map_option (joinWith '','')
       (those (map (\<lambda>x. if x = JUndefined \<or> x = JNull then Some [] else jsString x) xs))"
| "jsString (JObj kvs) =
     (if map_of kvs ''toString'' \<noteq> None then None else Some ''[object Object]'')"

subsection \<open>The filesystem as the synchronous calls see it\<close>

text \<open>
  \<^verbatim>\<open>existsSync\<close> never throws; \<^verbatim>\<open>statSync\<close> gives the modification time in
  milliseconds and \<^verbatim>\<open>readFileSync\<close> the text, \<^verbatim>\<open>None\<close> when the call throws. The three
  are independent, as they are for the code (a file can vanish between two calls).
\<close>

record filesystem =
  existsSync :: "string \<Rightarrow> bool"
  statSync :: "string \<Rightarrow> nat option"
  readFileSync :: "string \<Rightarrow> string option"

subsection \<open>Frontmatter\<close>

text \<open>
  \<^verbatim>\<open>content.match(/^---\n([\s\S]*?)\n---/)\<close>: the text starts with three dashes and a
  newline, and the group is the shortest text after them that is followed by a newline
  and three dashes. \<^verbatim>\<open>None\<close> when there is no match.
\<close>

fun beforeFirst :: "string \<Rightarrow> string \<Rightarrow> string option" where
  "beforeFirst pat [] = (if pat = [] then Some [] else None)"
| "beforeFirst pat (c # cs) =
     (if startsWith (c # cs) pat then Some []
      else map_option ((#) c) (beforeFirst pat cs))"

definition frontmatterMatch :: "string \<Rightarrow> string option" where
  "frontmatterMatch content =
     (if startsWith content ''---\<newline>''
      then beforeFirst ''\<newline>---'' (drop 4 content)
      else None)"

text \<open>
  \<^verbatim>\<open>yaml.parse\<close> is a library function: it is an argument of the model, of type
  \<^typ>\<open>string \<Rightarrow> jsval option\<close>, \<^verbatim>\<open>None\<close> when it throws.
\<close>

type_synonym yaml = "string \<Rightarrow> jsval option"

subsection \<open>Brand configuration (\<^verbatim>\<open>brand.ts\<close>)\<close>

record FooterLink =
  label :: string
  url :: string

text \<open>
  The fields that the code fills with \<^verbatim>\<open>fm.x as string || ''\<close> hold whatever truthy
  value the frontmatter has, so they are \<^typ>\<open>jsval\<close>.
\<close>

record BrandConfig =
  logo :: string
  logoDark :: string
  favicon :: string
  accentColor :: jsval
  headerStyle :: string
  footerText :: jsval
  footerLinks :: "FooterLink list"
  customCss :: string
  ogImage :: string

definition DEFAULT_BRAND :: BrandConfig where
  "DEFAULT_BRAND = \<lparr> logo = '''', logoDark = '''', favicon = '''', accentColor = JStr '''',
     headerStyle = ''text_only'', footerText = JStr '''', footerLinks = [],
     customCss = '''', ogImage = '''' \<rparr>"

text \<open>The two module variables \<^verbatim>\<open>brandCache\<close> and \<^verbatim>\<open>brandMtime\<close>.\<close>

record brand_state =
  brandCache :: "BrandConfig option"
  brandMtime :: nat

definition brand_initial :: brand_state where
  "brand_initial = \<lparr> brandCache = None, brandMtime = 0 \<rparr>"

text \<open>
  \<^verbatim>\<open>resolveAssetUrl\<close> of \<^verbatim>\<open>brand.ts\<close>. A falsy argument gives the empty string; a
  truthy value that is not a string has no \<^verbatim>\<open>replace\<close> method, and the call throws
  (\<^verbatim>\<open>None\<close>).
\<close>

definition stripDotSlash :: "string \<Rightarrow> string" where
  "stripDotSlash s = (if startsWith s ''./'' then drop 2 s else s)"

fun resolveAssetUrl_brand :: "jsval \<Rightarrow> string option" where
  "resolveAssetUrl_brand (JStr s) = Some (if s = [] then [] else ''/api/content/'' @ stripDotSlash s)"
| "resolveAssetUrl_brand v = (if truthy v then None else Some [])"

text \<open>The footer links: the filter and the map of the source, the map failing when
  \<^verbatim>\<open>String\<close> does.\<close>

definition footerLinkOf :: "jsval \<Rightarrow> FooterLink option" where
  "footerLinkOf l =
     (case jsString (jsOr (getProp l ''label'') (JStr '''')) of
        None \<Rightarrow> None
      | Some lb \<Rightarrow>
         (case jsString (jsOr (getProp l ''url'') (JStr '''')) of
            None \<Rightarrow> None
          | Some u \<Rightarrow> Some \<lparr> label = lb, url = u \<rparr>))"

fun parseFooterLinks :: "jsval \<Rightarrow> FooterLink list option" where
  "parseFooterLinks (JArr ls) =
     those (map footerLinkOf
       (filter (\<lambda>l. truthy l \<and> isObjectType l \<and> hasProp ''label'' l \<and> hasProp ''url'' l) ls))"
| "parseFooterLinks v = Some []"

definition parseHeaderStyle :: "jsval \<Rightarrow> string" where
  "parseHeaderStyle v =
     (case v of
        JStr s \<Rightarrow> if s \<in> set [''logo_only'', ''logo_and_text'', ''text_only''] then s
                  else ''text_only''
      | _ \<Rightarrow> ''text_only'')"

text \<open>
  The object literal assigned to \<^verbatim>\<open>brandCache\<close>, its fields evaluated in the order of
  the source; \<^verbatim>\<open>None\<close> when one of them throws.
\<close>

definition brandFromFrontmatter :: "jsval \<Rightarrow> BrandConfig option" where
  "brandFromFrontmatter fm =
     (case parseFooterLinks (getProp fm ''footer_links'') of None \<Rightarrow> None | Some links \<Rightarrow>
      case resolveAssetUrl_brand (jsOr (getProp fm ''logo'') (JStr '''')) of None \<Rightarrow> None | Some lg \<Rightarrow>
      case resolveAssetUrl_brand (jsOr (getProp fm ''logo_dark'') (jsOr (getProp fm ''logo'') (JStr '''')))
        of None \<Rightarrow> None | Some ld \<Rightarrow>
      case resolveAssetUrl_brand (jsOr (getProp fm ''favicon'') (JStr '''')) of None \<Rightarrow> None | Some fv \<Rightarrow>
      case resolveAssetUrl_brand (jsOr (getProp fm ''custom_css'') (JStr '''')) of None \<Rightarrow> None | Some css \<Rightarrow>
      case resolveAssetUrl_brand (jsOr (getProp fm ''og_image'') (JStr '''')) of None \<Rightarrow> None | Some og \<Rightarrow>
        Some \<lparr> logo = lg, logoDark = ld, favicon = fv,
               accentColor = jsOr (getProp fm ''accent_color'') (JStr ''''),
               headerStyle = parseHeaderStyle (getProp fm ''header_style''),
               footerText = jsOr (getProp fm ''footer_text'') (JStr ''''),
               footerLinks = links, customCss = css, ogImage = og \<rparr>)"

text \<open>
  The body of the \<^verbatim>\<open>try\<close> block after the cache test: the new values of
  \<^verbatim>\<open>brandCache\<close> and \<^verbatim>\<open>brandMtime\<close>, or \<^verbatim>\<open>None\<close> when something throws
  (\<^verbatim>\<open>readFileSync\<close>, \<^verbatim>\<open>yaml.parse\<close> or the construction of the object).
\<close>

definition loadBrand :: "yaml \<Rightarrow> filesystem \<Rightarrow> string \<Rightarrow> nat \<Rightarrow> (BrandConfig \<times> nat) option" where
  "loadBrand yamlParse fs brandPath mtime =
     (case readFileSync fs brandPath of
        None \<Rightarrow> None
      | Some content \<Rightarrow>
         (case frontmatterMatch content of
            None \<Rightarrow> Some (DEFAULT_BRAND, mtime)
          | Some m \<Rightarrow>
             (case yamlParse m of
                None \<Rightarrow> None
              | Some v \<Rightarrow>
                 (case brandFromFrontmatter (jsOr v (JObj [])) of
                    None \<Rightarrow> None
                  | Some b \<Rightarrow> Some (b, mtime)))))"

text \<open>
  \<^verbatim>\<open>getBrandConfig\<close>: the configuration returned and the module state after the call.
  The \<^verbatim>\<open>catch\<close> branch stores the defaults and leaves \<^verbatim>\<open>brandMtime\<close> as it was. The
  calls of the logger are left out.
\<close>

definition getBrandConfig ::
  "yaml \<Rightarrow> filesystem \<Rightarrow> brand_state \<Rightarrow> string \<Rightarrow> BrandConfig \<times> brand_state" where
  "getBrandConfig yamlParse fs st contentDir =
     (let brandPath = pathJoin contentDir ''_brand.md'' in
      if \<not> existsSync fs brandPath then
        (case brandCache st of
           Some c \<Rightarrow> (c, st)
         | None \<Rightarrow> (DEFAULT_BRAND, st\<lparr> brandCache := Some DEFAULT_BRAND \<rparr>))
      else
        (case statSync fs brandPath of
           None \<Rightarrow> (DEFAULT_BRAND, st\<lparr> brandCache := Some DEFAULT_BRAND \<rparr>)
         | Some mtime \<Rightarrow>
            (case (if mtime = brandMtime st then brandCache st else None) of
               Some c \<Rightarrow> (c, st)
             | None \<Rightarrow>
                (case loadBrand yamlParse fs brandPath mtime of
                   None \<Rightarrow> (DEFAULT_BRAND, st\<lparr> brandCache := Some DEFAULT_BRAND \<rparr>)
                 | Some (b, m) \<Rightarrow> (b, \<lparr> brandCache = Some b, brandMtime = m \<rparr>)))))"

definition invalidateBrandCache :: "brand_state \<Rightarrow> brand_state" where
  "invalidateBrandCache st = \<lparr> brandCache = None, brandMtime = 0 \<rparr>"

text \<open>
  A run of calls, one filesystem snapshot and one \<^verbatim>\<open>contentDir\<close> per call: the list of
  the configurations returned and the state at the end.
\<close>

fun getBrandConfigs ::
  "yaml \<Rightarrow> brand_state \<Rightarrow> (filesystem \<times> string) list \<Rightarrow> BrandConfig list \<times> brand_state" where
  "getBrandConfigs yamlParse st [] = ([], st)"
| "getBrandConfigs yamlParse st ((fs, dir) # calls) =
     (case getBrandConfig yamlParse fs st dir of
        (c, st') \<Rightarrow>
          (case getBrandConfigs yamlParse st' calls of (cs, st'') \<Rightarrow> (c # cs, st'')))"

subsection \<open>Example inputs for the brand cache\<close>

definition ex_yaml :: yaml where
  "ex_yaml = (\<lambda>s. if s = ''logo: ./l.svg'' then Some (JObj [(''logo'', JStr ''./l.svg'')])
                     else None)"

definition ex_fs_brand :: filesystem where
  "ex_fs_brand =
     \<lparr> existsSync = (\<lambda>p. p = ''/c/_brand.md''),
       statSync = (\<lambda>p. if p = ''/c/_brand.md'' then Some 7 else None),
       readFileSync = (\<lambda>p. if p = ''/c/_brand.md''
                             then Some ''---\<newline>logo: ./l.svg\<newline>---'' else None) \<rparr>"

definition ex_fs_empty :: filesystem where
  "ex_fs_empty = \<lparr> existsSync = (\<lambda>p. False), statSync = (\<lambda>p. None),
                   readFileSync = (\<lambda>p. None) \<rparr>"

definition ex_brand :: BrandConfig where
  "ex_brand = \<lparr> logo = ''/api/content/l.svg'', logoDark = ''/api/content/l.svg'',
     favicon = [], accentColor = JStr [], headerStyle = ''text_only'',
     footerText = JStr [], footerLinks = [], customCss = [], ogImage = [] \<rparr>"

subsection \<open>Directory configuration (\<^verbatim>\<open>config.ts\<close>)\<close>

text \<open>
  As in the brand configuration, a field that the code fills with
  \<^verbatim>\<open>(fm.x as string) || defaults.x\<close> holds whatever truthy value the frontmatter has.
\<close>

datatype layout_kind = Docs | Blog

record DirectoryConfig =
  layout :: layout_kind
  title :: jsval
  description :: jsval
  postsPerPage :: int
  defaultAuthor :: jsval
  showToc :: bool
  dateFormat :: string
  heroImage :: string
  heroSubtitle :: jsval

definition DEFAULT_DOCS_CONFIG :: DirectoryConfig where
  "DEFAULT_DOCS_CONFIG = \<lparr> layout = Docs, title = JStr '''', description = JStr '''',
     postsPerPage = 10, defaultAuthor = JStr '''', showToc = True, dateFormat = ''long'',
     heroImage = '''', heroSubtitle = JStr '''' \<rparr>"

definition DEFAULT_BLOG_CONFIG :: DirectoryConfig where
  "DEFAULT_BLOG_CONFIG = \<lparr> layout = Blog, title = JStr ''Blog'', description = JStr '''',
     postsPerPage = 10, defaultAuthor = JStr '''', showToc = False, dateFormat = ''long'',
     heroImage = '''', heroSubtitle = JStr '''' \<rparr>"

text \<open>
  The module variables: the \<^verbatim>\<open>Map\<close> from cache keys to configurations, and the one
  \<^verbatim>\<open>cacheTimestamp\<close> that goes with the whole map.
\<close>

record config_state =
  configCache :: "string \<rightharpoonup> DirectoryConfig"
  cacheTimestamp :: int

definition config_initial :: config_state where
  "config_initial = \<lparr> configCache = Map.empty, cacheTimestamp = 0 \<rparr>"

definition CACHE_TTL :: int where
  "CACHE_TTL = 5000"

text \<open>
  What a call of \<^verbatim>\<open>resolveDirectoryConfig\<close> meets: the files, the environment variables
  it reads (\<^verbatim>\<open>NODE_ENV\<close>, \<^verbatim>\<open>F0_MODE\<close>, \<^verbatim>\<open>NUXT_PUBLIC_SITE_NAME\<close>,
  \<^verbatim>\<open>NUXT_PUBLIC_SITE_DESCRIPTION\<close>; \<^verbatim>\<open>None\<close> when unset), and the two readings of
  \<^verbatim>\<open>Date.now()\<close>, in milliseconds: the one in \<^verbatim>\<open>isCacheValid\<close> and the one taken when
  an entry is stored.
\<close>

record config_world =
  files :: filesystem
  env_NODE_ENV :: "string option"
  env_F0_MODE :: "string option"
  env_SITE_NAME :: "string option"
  env_SITE_DESCRIPTION :: "string option"
  dateNow :: int
  dateNowStore :: int

definition isCacheValid :: "config_world \<Rightarrow> config_state \<Rightarrow> bool" where
  "isCacheValid w st =
     (if env_NODE_ENV w = Some ''production'' then True
      else dateNow w - cacheTimestamp st < CACHE_TTL)"

definition invalidateConfigCache :: "config_state \<Rightarrow> config_state" where
  "invalidateConfigCache st = \<lparr> configCache = Map.empty, cacheTimestamp = 0 \<rparr>"

text \<open>
  \<^verbatim>\<open>extractConfigFrontmatter\<close>: the frontmatter and the warnings logged. An exception of
  \<^verbatim>\<open>yaml.parse\<close> is caught here.
\<close>

definition extractConfigFrontmatter :: "yaml \<Rightarrow> string \<Rightarrow> jsval \<times> string list" where
  "extractConfigFrontmatter yamlParse content =
     (case frontmatterMatch content of
        None \<Rightarrow> (JObj [], [])
      | Some m \<Rightarrow>
         (case yamlParse m of
            None \<Rightarrow> (JObj [], [''Failed to parse _config.md frontmatter''])
          | Some v \<Rightarrow> (jsOr v (JObj []), [])))"

text \<open>
  \<^verbatim>\<open>resolveAssetUrl\<close> of \<^verbatim>\<open>config.ts\<close>; a truthy value that is not a string has no
  \<^verbatim>\<open>startsWith\<close> method, and the call throws (\<^verbatim>\<open>None\<close>).
\<close>

fun resolveAssetUrl_config :: "jsval \<Rightarrow> string option" where
  "resolveAssetUrl_config (JStr s) =
     Some (if s = [] then []
           else if startsWith s ''http://'' \<or> startsWith s ''https://'' then s
           else ''/api/content/'' @ stripDotSlash s)"
| "resolveAssetUrl_config v = (if truthy v then None else Some [])"

definition parseDateFormat :: "jsval \<Rightarrow> string \<Rightarrow> string" where
  "parseDateFormat v dflt =
     (case v of
        JStr s \<Rightarrow> if s \<in> set [''long'', ''short'', ''relative''] then s else dflt
      | _ \<Rightarrow> dflt)"

text \<open>
  The object that \<^verbatim>\<open>parseConfigFile\<close> returns from its \<^verbatim>\<open>try\<close> block, \<^verbatim>\<open>None\<close> when
  building it throws.
\<close>

definition configFromFrontmatter :: "jsval \<Rightarrow> DirectoryConfig option" where
  "configFromFrontmatter fm =
     (let lay = (if getProp fm ''layout'' = JStr ''blog'' then Blog else Docs);
          defaults = (if lay = Blog then DEFAULT_BLOG_CONFIG else DEFAULT_DOCS_CONFIG)
      in case resolveAssetUrl_config (jsOr (getProp fm ''hero_image'') (JStr '''')) of
           None \<Rightarrow> None
         | Some hero \<Rightarrow>
             Some \<lparr> layout = lay,
                    title = jsOr (getProp fm ''title'') (title defaults),
                    description = jsOr (getProp fm ''description'') (description defaults),
                    postsPerPage = (case getProp fm ''posts_per_page'' of
                                      JNum n \<Rightarrow> n | _ \<Rightarrow> postsPerPage defaults),
                    defaultAuthor = jsOr (getProp fm ''default_author'') (defaultAuthor defaults),
                    showToc = (case getProp fm ''show_toc'' of
                                 JBool b \<Rightarrow> b | _ \<Rightarrow> showToc defaults),
                    dateFormat = parseDateFormat (getProp fm ''date_format'') (dateFormat defaults),
                    heroImage = hero,
                    heroSubtitle = jsOr (getProp fm ''hero_subtitle'') (heroSubtitle defaults) \<rparr>)"

text \<open>
  \<^verbatim>\<open>parseConfigFile\<close>: the configuration and the warnings logged. Its \<^verbatim>\<open>catch\<close> block
  answers every exception of the \<^verbatim>\<open>try\<close> block with a copy of the docs defaults.
\<close>

definition parseConfigFile :: "yaml \<Rightarrow> filesystem \<Rightarrow> string \<Rightarrow> DirectoryConfig \<times> string list" where
  "parseConfigFile yamlParse fs configPath =
     (case readFileSync fs configPath of
        None \<Rightarrow> (DEFAULT_DOCS_CONFIG, [''Error reading config''])
      | Some content \<Rightarrow>
         (case extractConfigFrontmatter yamlParse content of
            (fm, warns) \<Rightarrow>
              (case configFromFrontmatter fm of
                 None \<Rightarrow> (DEFAULT_DOCS_CONFIG, warns @ [''Error reading config''])
               | Some c \<Rightarrow> (c, warns))))"

text \<open>
  \<^verbatim>\<open>dirPath.replace(/^\//, '').replace(/\/$/, '')\<close>, the cache key, and the path of
  \<^verbatim>\<open>_config.md\<close>.
\<close>

definition normalizeDir :: "string \<Rightarrow> string" where
  "normalizeDir dirPath =
     (let a = (if startsWith dirPath ''/'' then drop 1 dirPath else dirPath)
      in if endsWith a ''/'' then butlast a else a)"

definition configCacheKey :: "string \<Rightarrow> string \<Rightarrow> string" where
  "configCacheKey contentDir dirPath = contentDir @ '':'' @ normalizeDir dirPath"

text \<open>\<^verbatim>\<open>process.env.X || d\<close>\<close>

definition envOr :: "string option \<Rightarrow> string \<Rightarrow> string" where
  "envOr v d = (case v of None \<Rightarrow> d | Some s \<Rightarrow> if s = [] then d else s)"

definition configPathOf :: "string \<Rightarrow> string \<Rightarrow> string" where
  "configPathOf contentDir dirPath =
     (let normalizedDir = normalizeDir dirPath;
          fullDirPath = (if normalizedDir \<noteq> [] then pathJoin contentDir normalizedDir
                         else contentDir)
      in pathJoin fullDirPath ''_config.md'')"

text \<open>\<^verbatim>\<open>configCache.set(cacheKey, config); cacheTimestamp = Date.now()\<close>\<close>

definition storeConfig ::
  "config_world \<Rightarrow> config_state \<Rightarrow> string \<Rightarrow> DirectoryConfig \<Rightarrow> config_state" where
  "storeConfig w st cacheKey config =
     \<lparr> configCache = (configCache st)(cacheKey \<mapsto> config), cacheTimestamp = dateNowStore w \<rparr>"

text \<open>
  \<^verbatim>\<open>resolveDirectoryConfig\<close>: the configuration, the module state after the call and
  the warnings logged.
\<close>

definition resolveDirectoryConfig ::
  "yaml \<Rightarrow> config_world \<Rightarrow> config_state \<Rightarrow> string \<Rightarrow> string
     \<Rightarrow> DirectoryConfig \<times> config_state \<times> string list" where
  "resolveDirectoryConfig yamlParse w st contentDir dirPath =
     (let normalizedDir = normalizeDir dirPath;
          cacheKey = configCacheKey contentDir dirPath
      in case (if isCacheValid w st then configCache st cacheKey else None) of
           Some c \<Rightarrow> (c, st, [])
         | None \<Rightarrow>
            (let configPath = configPathOf contentDir dirPath
             in if existsSync (files w) configPath then
                  (case parseConfigFile yamlParse (files w) configPath of
                     (config, warns) \<Rightarrow> (config, storeConfig w st cacheKey config, warns))
                else if normalizedDir = [] \<and> envOr (env_F0_MODE w) [] = ''blog'' then
                  (let config = DEFAULT_BLOG_CONFIG
                         \<lparr> title := JStr (envOr (env_SITE_NAME w) ''Blog''),
                           description := JStr (envOr (env_SITE_DESCRIPTION w) []) \<rparr>
                   in (config, storeConfig w st cacheKey config, []))
                else
                  (DEFAULT_DOCS_CONFIG, storeConfig w st cacheKey DEFAULT_DOCS_CONFIG, [])))"

subsection \<open>Example inputs for the directory configuration\<close>

definition ex_yaml_blog :: yaml where
  "ex_yaml_blog = (\<lambda>s. if s = ''layout: blog'' then Some (JObj [(''layout'', JStr ''blog'')])
                          else None)"

definition ex_fs_blog :: filesystem where
  "ex_fs_blog =
     \<lparr> existsSync = (\<lambda>p. p = ''/c/a/_config.md''),
       statSync = (\<lambda>p. if p = ''/c/a/_config.md'' then Some 1 else None),
       readFileSync = (\<lambda>p. if p = ''/c/a/_config.md''
                             then Some ''---\<newline>layout: blog\<newline>---'' else None) \<rparr>"

definition ex_world :: "filesystem \<Rightarrow> string option \<Rightarrow> int \<Rightarrow> config_world" where
  "ex_world fs nodeEnv t =
     \<lparr> files = fs, env_NODE_ENV = nodeEnv, env_F0_MODE = None, env_SITE_NAME = None,
       env_SITE_DESCRIPTION = None, dateNow = t, dateNowStore = t \<rparr>"

definition ex_cfg_s1 :: config_state where
  "ex_cfg_s1 = \<lparr> configCache = [''/c:a'' \<mapsto> DEFAULT_DOCS_CONFIG], cacheTimestamp = 100000 \<rparr>"

definition ex_cfg_s2 :: config_state where
  "ex_cfg_s2 = \<lparr> configCache = [''/c:a'' \<mapsto> DEFAULT_DOCS_CONFIG, ''/c:b'' \<mapsto> DEFAULT_DOCS_CONFIG],
                 cacheTimestamp = 104000 \<rparr>"

definition ex_fs_unreadable :: filesystem where
  "ex_fs_unreadable =
     \<lparr> existsSync = (\<lambda>p. p = ''/c/a/_config.md''), statSync = (\<lambda>p. None),
       readFileSync = (\<lambda>p. None) \<rparr>"

definition ex_fs_malformed :: filesystem where
  "ex_fs_malformed =
     \<lparr> existsSync = (\<lambda>p. p = ''/c/a/_config.md''), statSync = (\<lambda>p. None),
       readFileSync = (\<lambda>p. if p = ''/c/a/_config.md''
                             then Some ''---\<newline>layout: [blog\<newline>---'' else None) \<rparr>"

definition ex_fs_badfield :: filesystem where
  "ex_fs_badfield =
     \<lparr> existsSync = (\<lambda>p. p = ''/c/a/_config.md''), statSync = (\<lambda>p. None),
       readFileSync = (\<lambda>p. if p = ''/c/a/_config.md''
                             then Some ''---\<newline>hero_image: 5\<newline>---'' else None) \<rparr>"

definition ex_yaml_cfg :: yaml where
  "ex_yaml_cfg = (\<lambda>s. if s = ''hero_image: 5'' then Some (JObj [(''hero_image'', JNum 5)])
                        else None)"

subsection \<open>Image processing (\<^verbatim>\<open>image-processor.ts\<close>)\<close>

text \<open>
  The options of a transform, each field present or not; the processed image, whose
  \<^verbatim>\<open>width\<close> and \<^verbatim>\<open>height\<close> are the fields \<open>outWidth\<close> and \<open>outHeight\<close> here. A
  \<^verbatim>\<open>Buffer\<close> is a string of bytes.
\<close>

record ImageOptions =
  width :: "int option"
  height :: "int option"
  format :: "string option"
  quality :: "int option"

record ProcessedImage =
  buffer :: string
  mimeType :: string
  outWidth :: "int option"
  outHeight :: "int option"

definition SUPPORTED_FORMATS :: "string list" where
  "SUPPORTED_FORMATS = [''webp'', ''avif'', ''jpeg'', ''jpg'', ''png'']"

definition MAX_WIDTH :: int where "MAX_WIDTH = 3840"

definition MAX_HEIGHT :: int where "MAX_HEIGHT = 2160"

definition DEFAULT_QUALITY :: int where "DEFAULT_QUALITY = 80"

text \<open>
  Query values as the router's \<^verbatim>\<open>getQuery\<close> gives them: a string, or an array of
  strings when the parameter is repeated; \<^verbatim>\<open>None\<close> is a parameter that is not there.
  Then truthiness, \<^verbatim>\<open>a || b\<close> and \<^verbatim>\<open>String(v)\<close> for these values.
\<close>

datatype qval = QStr string | QArr "string list"

type_synonym query = "string \<Rightarrow> qval option"

fun qTruthy :: "qval option \<Rightarrow> bool" where
  "qTruthy None = False"
| "qTruthy (Some (QStr s)) = (s \<noteq> [])"
| "qTruthy (Some (QArr xs)) = True"

definition qOr :: "qval option \<Rightarrow> qval option \<Rightarrow> qval option" where
  "qOr a b = (if qTruthy a then a else b)"

fun qString :: "qval \<Rightarrow> string" where
  "qString (QStr s) = s"
| "qString (QArr xs) = joinWith '','' xs"

text \<open>
  \<^verbatim>\<open>parseInt(s, 10)\<close>: leading white space is skipped, a sign is read, then decimal
  digits as far as they go; \<^verbatim>\<open>None\<close> is \<^verbatim>\<open>NaN\<close> (no digit). The result is an
  integer here, where JavaScript has a double; the two agree up to \<open>2\<^sup>5\<^sup>3\<close>, far above
  every bound the code compares with.
\<close>

definition isWhiteSpace :: "char \<Rightarrow> bool" where
  "isWhiteSpace c = (c \<in> set [CHR 0x09, CHR 0x0A, CHR 0x0B, CHR 0x0C, CHR 0x0D, CHR 0x20])"

definition isDigit :: "char \<Rightarrow> bool" where
  "isDigit c = (c \<in> set ''0123456789'')"

definition digitVal :: "char \<Rightarrow> nat" where
  "digitVal c = of_char c - 48"

definition digitsValue :: "string \<Rightarrow> nat" where
  "digitsValue ds = foldl (\<lambda>acc c. 10 * acc + digitVal c) 0 ds"

definition parseInt :: "string \<Rightarrow> int option" where
  "parseInt s =
     (let t = dropWhile isWhiteSpace s;
          neg = (t \<noteq> [] \<and> hd t = CHR ''-'');
          u = (if t \<noteq> [] \<and> (hd t = CHR ''-'' \<or> hd t = CHR ''+'') then tl t else t);
          ds = takeWhile isDigit u
      in if ds = [] then None
         else Some (if neg then - int (digitsValue ds) else int (digitsValue ds)))"

text \<open>\<^verbatim>\<open>toLowerCase\<close>, on ASCII letters.\<close>

definition lowerChar :: "char \<Rightarrow> char" where
  "lowerChar c =
     (case map_of (zip ''ABCDEFGHIJKLMNOPQRSTUVWXYZ'' ''abcdefghijklmnopqrstuvwxyz'') c of
        Some d \<Rightarrow> d | None \<Rightarrow> c)"

definition toLowerCase :: "string \<Rightarrow> string" where
  "toLowerCase s = map lowerChar s"

text \<open>
  The four \<^verbatim>\<open>if\<close> blocks of \<^verbatim>\<open>parseImageOptions\<close>: the value that the field gets, or
  \<^verbatim>\<open>None\<close> when the field is not set. A comparison with \<^verbatim>\<open>NaN\<close> is false.
\<close>

definition parseDimension :: "int \<Rightarrow> qval option \<Rightarrow> int option" where
  "parseDimension limit v =
     (case v of
        None \<Rightarrow> None
      | Some x \<Rightarrow>
         (if qTruthy v then
            (case parseInt (qString x) of
               None \<Rightarrow> None
             | Some n \<Rightarrow> if 0 < n \<and> n \<le> limit then Some n else None)
          else None))"

definition parseFormat :: "qval option \<Rightarrow> string option" where
  "parseFormat v =
     (case v of
        None \<Rightarrow> None
      | Some x \<Rightarrow>
         (if qTruthy v \<and> toLowerCase (qString x) \<in> set SUPPORTED_FORMATS
          then Some (toLowerCase (qString x)) else None))"

definition parseQuality :: "qval option \<Rightarrow> int option" where
  "parseQuality v =
     (case v of
        None \<Rightarrow> None
      | Some x \<Rightarrow>
         (if qTruthy v then
            (case parseInt (qString x) of
               None \<Rightarrow> None
             | Some n \<Rightarrow> if 1 \<le> n \<and> n \<le> 100 then Some n else None)
          else None))"

text \<open>
  \<^verbatim>\<open>parseImageOptions\<close>; \<^verbatim>\<open>None\<close> is \<^verbatim>\<open>null\<close>. \<open>noOptions\<close> is the object without
  keys.
\<close>

definition noOptions :: ImageOptions where
  "noOptions = \<lparr> width = None, height = None, format = None, quality = None \<rparr>"

definition parseImageOptions :: "query \<Rightarrow> ImageOptions option" where
  "parseImageOptions query =
     (let w = qOr (query ''w'') (query ''width'');
          h = qOr (query ''h'') (query ''height'');
          f = qOr (query ''f'') (query ''format'');
          q = qOr (query ''q'') (query ''quality'')
      in if \<not> qTruthy w \<and> \<not> qTruthy h \<and> \<not> qTruthy f \<and> \<not> qTruthy q then None
         else
           (let options = \<lparr> width = parseDimension MAX_WIDTH w,
                             height = parseDimension MAX_HEIGHT h,
                             format = parseFormat f,
                             quality = parseQuality q \<rparr>
            in if options = noOptions then None else Some options))"

text \<open>JavaScript truthiness of an optional number and of an optional string.\<close>

fun numTruthy :: "int option \<Rightarrow> bool" where
  "numTruthy None = False"
| "numTruthy (Some n) = (n \<noteq> 0)"

fun strTruthy :: "string option \<Rightarrow> bool" where
  "strTruthy None = False"
| "strTruthy (Some s) = (s \<noteq> [])"

definition numOr :: "int option \<Rightarrow> int \<Rightarrow> int" where
  "numOr v d = (case v of None \<Rightarrow> d | Some n \<Rightarrow> if n \<noteq> 0 then n else d)"

definition strOr :: "string option \<Rightarrow> string \<Rightarrow> string" where
  "strOr v d = (case v of None \<Rightarrow> d | Some s \<Rightarrow> if s \<noteq> [] then s else d)"

text \<open>
  \<^verbatim>\<open>path.basename\<close> and \<^verbatim>\<open>path.extname\<close> of Node (POSIX): the last segment of a path,
  trailing slashes ignored; the extension from the last dot of that segment, empty when
  there is no dot, when the only dot is the first character, or for \<^verbatim>\<open>..\<close>; and
  \<^verbatim>\<open>basename(p, ext)\<close>, which drops the suffix \<open>ext\<close> from the last segment unless the
  segment is the suffix.
\<close>

definition basename :: "string \<Rightarrow> string" where
  "basename p = rev (takeWhile (\<lambda>c. c \<noteq> CHR ''/'') (dropWhile (\<lambda>c. c = CHR ''/'') (rev p)))"

definition extname :: "string \<Rightarrow> string" where
  "extname p =
     (let b = basename p;
          e = takeWhile (\<lambda>c. c \<noteq> CHR ''.'') (rev b)
      in if CHR ''.'' \<notin> set b then []
         else if length e + 1 = length b then []
         else if b = ''..'' then []
         else CHR ''.'' # rev e)"

definition basenameExt :: "string \<Rightarrow> string \<Rightarrow> string" where
  "basenameExt p ext =
     (let b = basename p
      in if ext \<noteq> [] \<and> p = ext then []
         else if ext \<noteq> [] \<and> endsWith b ext \<and> b \<noteq> ext
         then take (length b - length ext) b
         else b)"

definition getCacheKey :: "string \<Rightarrow> ImageOptions \<Rightarrow> string" where
  "getCacheKey originalName options =
     (let name = basenameExt originalName (extname originalName);
          parts = [name]
            @ (if numTruthy (width options) then [''w'' @ showInt (numOr (width options) 0)] else [])
            @ (if numTruthy (height options) then [''h'' @ showInt (numOr (height options) 0)] else [])
            @ (if numTruthy (quality options) \<and> quality options \<noteq> Some DEFAULT_QUALITY
               then [''q'' @ showInt (numOr (quality options) 0)] else []);
          ext = (if strTruthy (format options) \<and> format options \<noteq> Some ''original''
                 then ''.'' @ (if format options = Some ''jpeg'' then ''jpg''
                               else strOr (format options) [])
                 else extname originalName)
      in joinWith ''-'' parts @ ext)"

text \<open>
  \<^verbatim>\<open>getMimeType\<close>: the lookup in \<^verbatim>\<open>mimeMap\<close> (for keys that are not properties of
  \<^verbatim>\<open>Object.prototype\<close>) with its default.
\<close>

definition getMimeType :: "string \<Rightarrow> string" where
  "getMimeType fmt =
     (case map_of [(''webp'', ''image/webp''), (''avif'', ''image/avif''),
                   (''jpeg'', ''image/jpeg''), (''jpg'', ''image/jpeg''),
                   (''png'', ''image/png''), (''gif'', ''image/gif''),
                   (''svg'', ''image/svg+xml'')] fmt of
        Some m \<Rightarrow> if m \<noteq> [] then m else ''application/octet-stream''
      | None \<Rightarrow> ''application/octet-stream'')"

text \<open>
  The \<^verbatim>\<open>sharp\<close> library is an argument of the model: whether \<^verbatim>\<open>import('sharp')\<close>
  resolves, and what the pipeline built by \<^verbatim>\<open>processImageBuffer\<close> gives for a source
  buffer, a resize request and an output encoder (\<^verbatim>\<open>None\<close> when any call of the
  pipeline throws). The resize request always has \<^verbatim>\<open>fit: 'inside'\<close> and
  \<^verbatim>\<open>withoutEnlargement: true\<close>.
\<close>

record resize_spec =
  resizeWidth :: "int option"
  resizeHeight :: "int option"

datatype encoder = Webp int | Avif int | Jpeg int | Png | Keep

record sharp_info =
  info_format :: string
  info_width :: int
  info_height :: int

type_synonym codec = "string \<Rightarrow> resize_spec option \<Rightarrow> encoder \<Rightarrow> (string \<times> sharp_info) option"

text \<open>The module variables \<^verbatim>\<open>sharpModule\<close> (loaded or not) and \<^verbatim>\<open>sharpAvailable\<close>.\<close>

record sharp_state =
  sharpModule :: bool
  sharpAvailable :: bool

definition sharp_initial :: sharp_state where
  "sharp_initial = \<lparr> sharpModule = False, sharpAvailable = True \<rparr>"

text \<open>
  What a call of \<^verbatim>\<open>getProcessedImage\<close> meets: the files (\<^verbatim>\<open>stat\<close> and \<^verbatim>\<open>readFile\<close>
  of \<^verbatim>\<open>fs/promises\<close> are the second and third field of \<^typ>\<open>filesystem\<close>, \<^verbatim>\<open>None\<close> a
  rejected promise), the library, whether \<^verbatim>\<open>mkdir\<close> and \<^verbatim>\<open>writeFile\<close> succeed, and the
  modification time a written file gets.
\<close>

record image_world =
  disk :: filesystem
  importSharp :: bool
  sharp :: codec
  mkdirOk :: "string \<Rightarrow> bool"
  writeFileOk :: "string \<Rightarrow> bool"
  writeTime :: nat

text \<open>
  \<^verbatim>\<open>getSharp\<close>: whether the library is at hand, the module state, the warning logged
  (its dash written as a hyphen).
\<close>

definition getSharp :: "image_world \<Rightarrow> sharp_state \<Rightarrow> bool \<times> sharp_state \<times> string list" where
  "getSharp w st =
     (if \<not> sharpAvailable st then (False, st, [])
      else if sharpModule st then (True, st, [])
      else if importSharp w then (True, st\<lparr> sharpModule := True \<rparr>, [])
      else (False, st\<lparr> sharpAvailable := False \<rparr>,
            [''sharp not available - image processing disabled, serving originals'']))"

definition resizeOf :: "ImageOptions \<Rightarrow> resize_spec option" where
  "resizeOf options =
     (if numTruthy (width options) \<or> numTruthy (height options)
      then Some \<lparr> resizeWidth = (if numTruthy (width options)
                                  then Some (min (numOr (width options) 0) MAX_WIDTH) else None),
                  resizeHeight = (if numTruthy (height options)
                                  then Some (min (numOr (height options) 0) MAX_HEIGHT) else None) \<rparr>
      else None)"

definition encoderOf :: "ImageOptions \<Rightarrow> encoder" where
  "encoderOf options =
     (let q = numOr (quality options) DEFAULT_QUALITY;
          fmt = strOr (format options) ''original''
      in if fmt = ''webp'' then Webp q
         else if fmt = ''avif'' then Avif q
         else if fmt = ''jpeg'' \<or> fmt = ''jpg'' then Jpeg q
         else if fmt = ''png'' then Png
         else Keep)"

text \<open>
  \<^verbatim>\<open>processImageBuffer\<close>: the image or \<^verbatim>\<open>null\<close>, the module state, the runs of the
  pipeline (the arguments it was built from; a ghost output that records whether the
  codec was invoked and on what) and the warnings logged.
\<close>

definition processImageBuffer ::
  "image_world \<Rightarrow> sharp_state \<Rightarrow> string \<Rightarrow> ImageOptions
     \<Rightarrow> ProcessedImage option \<times> sharp_state \<times> (string \<times> resize_spec option \<times> encoder) list
        \<times> string list" where
  "processImageBuffer w st sourceBuffer options =
     (case getSharp w st of
        (False, st', logged) \<Rightarrow> (None, st', [], logged)
      | (True, st', logged) \<Rightarrow>
         (let run = (sourceBuffer, resizeOf options, encoderOf options);
              fmt = strOr (format options) ''original''
          in case sharp w sourceBuffer (resizeOf options) (encoderOf options) of
               None \<Rightarrow> (None, st', [run], logged @ [''Image processing failed''])
             | Some (data, info) \<Rightarrow>
                 (Some \<lparr> buffer = data,
                         mimeType = getMimeType (if fmt = ''original'' then info_format info else fmt),
                         outWidth = Some (info_width info),
                         outHeight = Some (info_height info) \<rparr>,
                  st', [run], logged)))"

text \<open>\<^verbatim>\<open>s.replace('.', '')\<close>: the first dot is removed.\<close>

definition removeDot :: "string \<Rightarrow> string" where
  "removeDot s = takeWhile (\<lambda>c. c \<noteq> CHR ''.'') s @ drop 1 (dropWhile (\<lambda>c. c \<noteq> CHR ''.'') s)"

text \<open>
  The first \<^verbatim>\<open>try\<close> block of \<^verbatim>\<open>getProcessedImage\<close>: the cached image when the block
  returns, \<^verbatim>\<open>None\<close> when it falls through or an exception is caught.
\<close>

definition checkDiskCache :: "filesystem \<Rightarrow> string \<Rightarrow> string \<Rightarrow> ProcessedImage option" where
  "checkDiskCache fs sourcePath cachePath =
     (if existsSync fs cachePath then
        (case statSync fs sourcePath of
           None \<Rightarrow> None
         | Some sourceMtime \<Rightarrow>
            (case statSync fs cachePath of
               None \<Rightarrow> None
             | Some cacheMtime \<Rightarrow>
                (if cacheMtime \<ge> sourceMtime then
                   (case readFileSync fs cachePath of
                      None \<Rightarrow> None
                    | Some buf \<Rightarrow>
                        Some \<lparr> buffer = buf,
                               mimeType = getMimeType (removeDot (toLowerCase (extname cachePath))),
                               outWidth = None, outHeight = None \<rparr>)
                 else None)))
      else None)"

text \<open>
  The write to the disk cache: \<^verbatim>\<open>mkdir\<close> of the directory, then \<^verbatim>\<open>writeFile\<close>. When
  both succeed the file is there with the new bytes; when one fails, a warning is logged
  and the files are as before (a directory that \<^verbatim>\<open>mkdir\<close> created is not recorded).
\<close>

definition writeDiskCache ::
  "image_world \<Rightarrow> string \<Rightarrow> string \<Rightarrow> string \<Rightarrow> filesystem \<times> string list" where
  "writeDiskCache w cacheDir cachePath data =
     (if mkdirOk w cacheDir \<and> writeFileOk w cachePath then
        (\<lparr> existsSync = (existsSync (disk w))(cachePath := True),
           statSync = (statSync (disk w))(cachePath \<mapsto> writeTime w),
           readFileSync = (readFileSync (disk w))(cachePath \<mapsto> data) \<rparr>, [])
      else (disk w, [''Failed to write image cache'']))"

text \<open>
  The result of a call: what is returned or the rejection, the module state and the files
  after the call, the runs of the codec and the warnings logged.
\<close>

datatype image_error = SourceReadError

record image_result =
  outcome :: "image_error + ProcessedImage option"
  sharpAfter :: sharp_state
  diskAfter :: filesystem
  codecRuns :: "(string \<times> resize_spec option \<times> encoder) list"
  warnings :: "string list"

text \<open>\<^verbatim>\<open>join(cacheDir, getCacheKey(basename(sourcePath), options))\<close>\<close>

definition cachePathOf :: "string \<Rightarrow> string \<Rightarrow> ImageOptions \<Rightarrow> string" where
  "cachePathOf sourcePath cacheDir options =
     pathJoin cacheDir (getCacheKey (basename sourcePath) options)"

text \<open>
  \<^verbatim>\<open>getProcessedImage\<close>. \<^verbatim>\<open>readFile(sourcePath)\<close> stands outside every \<^verbatim>\<open>try\<close>:
  when it rejects, so does the call (\<^verbatim>\<open>Inl SourceReadError\<close>).
\<close>

definition getProcessedImage ::
  "image_world \<Rightarrow> sharp_state \<Rightarrow> string \<Rightarrow> string \<Rightarrow> ImageOptions \<Rightarrow> image_result" where
  "getProcessedImage w st sourcePath cacheDir options =
     (let cachePath = cachePathOf sourcePath cacheDir options
      in case checkDiskCache (disk w) sourcePath cachePath of
           Some cached \<Rightarrow>
             \<lparr> outcome = Inr (Some cached), sharpAfter = st, diskAfter = disk w,
               codecRuns = [], warnings = [] \<rparr>
         | None \<Rightarrow>
            (case readFileSync (disk w) sourcePath of
               None \<Rightarrow>
                 \<lparr> outcome = Inl SourceReadError, sharpAfter = st, diskAfter = disk w,
                   codecRuns = [], warnings = [] \<rparr>
             | Some sourceBuffer \<Rightarrow>
                (case processImageBuffer w st sourceBuffer options of
                   (None, st', runs, logged) \<Rightarrow>
                     \<lparr> outcome = Inr None, sharpAfter = st', diskAfter = disk w,
                       codecRuns = runs, warnings = logged \<rparr>
                 | (Some result, st', runs, logged) \<Rightarrow>
                     (case writeDiskCache w cacheDir cachePath (buffer result) of
                        (fs', logged') \<Rightarrow>
                          \<lparr> outcome = Inr (Some result), sharpAfter = st', diskAfter = fs',
                            codecRuns = runs, warnings = logged @ logged' \<rparr>))))"

text \<open>
  A value given for a numeric parameter that is not a number within the bounds: the
  reading of "out-of-range or non-numeric" used in the statement of the claim.
\<close>

definition invalidNumber :: "int \<Rightarrow> int \<Rightarrow> qval option \<Rightarrow> bool" where
  "invalidNumber lo hi v =
     (case v of
        None \<Rightarrow> False
      | Some x \<Rightarrow> (case parseInt (qString x) of None \<Rightarrow> True | Some n \<Rightarrow> n < lo \<or> hi < n))"

subsection \<open>Example inputs for the image pipeline\<close>

definition ex_query :: query where
  "ex_query = [''w'' \<mapsto> QStr ''800px'', ''h'' \<mapsto> QStr ''9999'', ''f'' \<mapsto> QStr ''WebP'',
               ''quality'' \<mapsto> QArr [''abc'', ''3'']]"

definition ex_query_bad :: query where
  "ex_query_bad = [''w'' \<mapsto> QStr ''0'', ''height'' \<mapsto> QStr ''tall'', ''q'' \<mapsto> QStr ''101'']"

definition ex_opts :: ImageOptions where
  "ex_opts = \<lparr> width = Some 800, height = None, format = Some ''webp'', quality = None \<rparr>"

definition ex_codec_ok :: codec where
  "ex_codec_ok = (\<lambda>buf r e. Some (''small:'' @ buf,
                    \<lparr> info_format = ''webp'', info_width = 800, info_height = 600 \<rparr>))"

definition ex_codec_fails :: codec where
  "ex_codec_fails = (\<lambda>buf r e. None)"

text \<open>A disk with the source image only, and one that also has a derivative of it.\<close>

definition ex_disk_source :: filesystem where
  "ex_disk_source =
     \<lparr> existsSync = (\<lambda>p. p = ''/c/assets/photo.png''),
       statSync = (\<lambda>p. if p = ''/c/assets/photo.png'' then Some 50 else None),
       readFileSync = (\<lambda>p. if p = ''/c/assets/photo.png'' then Some ''PNGDATA'' else None) \<rparr>"

definition ex_disk_cached :: "nat \<Rightarrow> filesystem" where
  "ex_disk_cached t =
     \<lparr> existsSync = (\<lambda>p. p = ''/c/assets/photo.png'' \<or> p = ''/c/.cache/images/photo-w800.webp''),
       statSync = (\<lambda>p. if p = ''/c/assets/photo.png'' then Some 50
                        else if p = ''/c/.cache/images/photo-w800.webp'' then Some t else None),
       readFileSync = (\<lambda>p. if p = ''/c/assets/photo.png'' then Some ''PNGDATA''
                            else if p = ''/c/.cache/images/photo-w800.webp'' then Some ''WEBPDATA''
                            else None) \<rparr>"

definition ex_image_world :: "filesystem \<Rightarrow> bool \<Rightarrow> codec \<Rightarrow> bool \<Rightarrow> image_world" where
  "ex_image_world fs imp cod wr =
     \<lparr> disk = fs, importSharp = imp, sharp = cod, mkdirOk = (\<lambda>p. True),
       writeFileOk = (\<lambda>p. wr), writeTime = 99 \<rparr>"

subsection \<open>The content fingerprint (\<^verbatim>\<open>llms-cache.ts\<close>)\<close>

text \<open>
  The content tree as \<^verbatim>\<open>readdir\<close> with \<^verbatim>\<open>withFileTypes\<close> and \<^verbatim>\<open>stat\<close> show it. An
  entry is a directory with its entries, a directory whose \<^verbatim>\<open>readdir\<close> throws, an
  entry that is not a directory with the \<^verbatim>\<open>mtimeMs\<close> that \<^verbatim>\<open>stat\<close> gives (a whole
  number of milliseconds here), or an entry that is not a directory and whose \<^verbatim>\<open>stat\<close>
  throws.
\<close>

datatype fsnode =
    File string nat
  | Dir string "fsnode list"
  | Broken string
  | Locked string

text \<open>The two \<^verbatim>\<open>continue\<close> tests of the loop, and the test on the file name.\<close>

definition skipName :: "string \<Rightarrow> bool" where
  "skipName name =
     (startsWith name ''.'' \<or> startsWith name ''_''
      \<or> name = ''assets'' \<or> name = ''images'' \<or> name = ''nav.md'')"

definition isContentName :: "string \<Rightarrow> bool" where
  "isContentName name = (endsWith name ''.md'' \<or> endsWith name ''.json'')"

text \<open>
  The body of the loop of \<^verbatim>\<open>walk\<close> for one entry of \<open>currentDir\<close>: the strings it
  pushes on \<^verbatim>\<open>entries\<close>, in order. The two \<^verbatim>\<open>catch\<close> blocks are the empty lists.
\<close>

fun walkEntry :: "string \<Rightarrow> fsnode \<Rightarrow> string list" where
  "walkEntry currentDir (File name mtime) =
     (if skipName name then []
      else if isContentName name then [pathJoin currentDir name @ '':'' @ showNat mtime]
      else [])"
| "walkEntry currentDir (Dir name dirEntries) =
     (if skipName name then []
      else concat (map (walkEntry (pathJoin currentDir name)) dirEntries))"
| "walkEntry currentDir (Broken name) = []"
| "walkEntry currentDir (Locked name) = []"

text \<open>\<^verbatim>\<open>walk(dir)\<close> on the root; \<^verbatim>\<open>None\<close> is a root that cannot be listed.\<close>

definition walk :: "string \<Rightarrow> fsnode list option \<Rightarrow> string list" where
  "walk currentDir listing =
     (case listing of
        None \<Rightarrow> []
      | Some dirEntries \<Rightarrow> concat (map (walkEntry currentDir) dirEntries))"

text \<open>
  The entries after \<^verbatim>\<open>entries.sort()\<close> (strings compared code unit by code unit), the
  text that is hashed, and the hash. The MD5 digest is an argument of the model.
\<close>

definition contentEntries :: "string \<Rightarrow> fsnode list option \<Rightarrow> string list" where
  "contentEntries dir root = sort (walk dir root)"

definition computeContentHash :: "(string \<Rightarrow> string) \<Rightarrow> string \<Rightarrow> fsnode list option \<Rightarrow> string" where
  "computeContentHash digest dir root = digest (joinWith ''\<newline>'' (contentEntries dir root))"

text \<open>
  For the statements about the walk: every file of a tree with the names on the way to it
  (from the root's entries down) and its modification time, whatever its name.
\<close>

fun filesOf :: "fsnode \<Rightarrow> (string list \<times> nat) list" where
  "filesOf (File name mtime) = [([name], mtime)]"
| "filesOf (Dir name dirEntries) =
     map (\<lambda>(names, mtime). (name # names, mtime)) (concat (map filesOf dirEntries))"
| "filesOf (Broken name) = []"
| "filesOf (Locked name) = []"

definition allFiles :: "fsnode list option \<Rightarrow> (string list \<times> nat) list" where
  "allFiles root = (case root of None \<Rightarrow> [] | Some es \<Rightarrow> concat (map filesOf es))"

text \<open>
  A qualifying file: none of the names on the way to it, its own included, is skipped,
  and its own name ends in \<^verbatim>\<open>.md\<close> or \<^verbatim>\<open>.json\<close>.
\<close>

definition qualifying :: "string list \<times> nat \<Rightarrow> bool" where
  "qualifying f =
     (fst f \<noteq> [] \<and> list_all (\<lambda>name. \<not> skipName name) (fst f) \<and> isContentName (last (fst f)))"

definition entryOf :: "string \<Rightarrow> string list \<times> nat \<Rightarrow> string" where
  "entryOf dir f = foldl pathJoin dir (fst f) @ '':'' @ showNat (snd f)"

text \<open>Example trees.\<close>

definition ex_tree :: "fsnode list" where
  "ex_tree =
     [ Dir ''guides'' [File ''intro.md'' 10, File ''notes.txt'' 11, File ''_config.md'' 12],
       File ''nav.md'' 13,
       Dir ''assets'' [File ''readme.md'' 14],
       Dir ''.git'' [File ''x.json'' 15],
       Dir ''api'' [File ''spec.json'' 16, Dir ''images'' [File ''i.md'' 17], Broken ''gone.md'',
                    Locked ''locked''],
       Dir ''private'' [File ''secret.md'' 18],
       File ''home.md'' 19 ]"

text \<open>Names as \<^verbatim>\<open>readdir\<close> returns them have no slash.\<close>

definition noSlash :: "string \<Rightarrow> bool" where
  "noSlash name = (CHR ''/'' \<notin> set name)"

definition wellNamed :: "fsnode list option \<Rightarrow> bool" where
  "wellNamed root = list_all (\<lambda>f. list_all noSlash (fst f)) (allFiles root)"

text \<open>
  The entries are joined with a line feed and nothing is escaped, so the joined text can be
  split back into its entries only when no entry holds a line feed: when neither the
  content directory's path nor a name does.
\<close>

definition noBreak :: "string \<Rightarrow> bool" where
  "noBreak s = (CHR ''\<newline>'' \<notin> set s)"

definition plainNames :: "fsnode list option \<Rightarrow> bool" where
  "plainNames root
     = list_all (\<lambda>f. list_all (\<lambda>name. noSlash name \<and> noBreak name) (fst f)) (allFiles root)"








subsection \<open>The \<^verbatim>\<open>/llms.txt\<close> cache (\<^verbatim>\<open>llms-cache.ts\<close>)\<close>

record LlmGeneratorOptions =
  sections :: "string list option"

text \<open>
  \<^verbatim>\<open>generateLlmText\<close> belongs to another module (\<^verbatim>\<open>llm-generator\<close>): it is an argument
  of the model, giving the text for a content directory, a site name and the options, or
  \<^verbatim>\<open>None\<close> when its promise rejects. A call of \<^verbatim>\<open>getCachedLlmsTxt\<close> meets a generator,
  a content tree and a clock.
\<close>

type_synonym generator = "string \<Rightarrow> string \<Rightarrow> LlmGeneratorOptions \<Rightarrow> string option"

record llms_world =
  generateLlmText :: generator
  contentTree :: "fsnode list option"
  llmsNow :: int

text \<open>The module variables; an entry of \<^verbatim>\<open>sectionCache\<close> is a pair of text and hash.\<close>

record llms_state =
  cachedLlmsTxt :: "string option"
  cachedLlmsHash :: "string option"
  cachedLlmsGeneratedAt :: int
  sectionCache :: "string \<rightharpoonup> string \<times> string"

definition llms_initial :: llms_state where
  "llms_initial = \<lparr> cachedLlmsTxt = None, cachedLlmsHash = None, cachedLlmsGeneratedAt = 0,
                     sectionCache = Map.empty \<rparr>"

datatype llms_error = GeneratorRejected

text \<open>\<^verbatim>\<open>options.sections && options.sections.length > 0\<close>\<close>

definition sectionsGiven :: "LlmGeneratorOptions \<Rightarrow> bool" where
  "sectionsGiven options = (case sections options of None \<Rightarrow> False | Some ss \<Rightarrow> ss \<noteq> [])"

text \<open>
  \<^verbatim>\<open>options.sections.sort()\<close> sorts the array in place, so the generator sees the sorted
  sections; the key is their join.
\<close>

definition sortedOptions :: "LlmGeneratorOptions \<Rightarrow> LlmGeneratorOptions" where
  "sortedOptions options = options\<lparr> sections := map_option sort (sections options) \<rparr>"

definition sectionKeyOf :: "LlmGeneratorOptions \<Rightarrow> string" where
  "sectionKeyOf options =
     (case sections options of None \<Rightarrow> [] | Some ss \<Rightarrow> joinWith '','' (sort ss))"

text \<open>
  \<^verbatim>\<open>getCachedLlmsTxt\<close>: the text or the generator's rejection, the module state after
  the call, and the calls of the generator made (a ghost output: the arguments of each
  call). The calls of the logger are left out.
\<close>

definition getCachedLlmsTxt ::
  "(string \<Rightarrow> string) \<Rightarrow> llms_world \<Rightarrow> llms_state \<Rightarrow> string \<Rightarrow> string \<Rightarrow> LlmGeneratorOptions
     \<Rightarrow> (llms_error + string) \<times> llms_state \<times> (string \<times> string \<times> LlmGeneratorOptions) list" where
  "getCachedLlmsTxt digest w st contentDir siteName options =
     (if sectionsGiven options then
        (let sectionKey = sectionKeyOf options;
             currentHash = computeContentHash digest contentDir (contentTree w);
             cached = sectionCache st sectionKey
         in case (case cached of
                    None \<Rightarrow> None
                  | Some (text, hash) \<Rightarrow> if hash = currentHash then Some text else None) of
              Some text \<Rightarrow> (Inr text, st, [])
            | None \<Rightarrow>
               (case generateLlmText w contentDir siteName (sortedOptions options) of
                  None \<Rightarrow> (Inl GeneratorRejected, st, [(contentDir, siteName, sortedOptions options)])
                | Some text \<Rightarrow>
                    (Inr text,
                     st\<lparr> sectionCache := (sectionCache st)(sectionKey \<mapsto> (text, currentHash)) \<rparr>,
                     [(contentDir, siteName, sortedOptions options)])))
      else
        (let currentHash = computeContentHash digest contentDir (contentTree w)
         in case (case cachedLlmsTxt st of
                    None \<Rightarrow> None
                  | Some text \<Rightarrow> if text \<noteq> [] \<and> cachedLlmsHash st = Some currentHash
                                 then Some text else None) of
              Some text \<Rightarrow> (Inr text, st, [])
            | None \<Rightarrow>
               (case generateLlmText w contentDir siteName options of
                  None \<Rightarrow> (Inl GeneratorRejected, st, [(contentDir, siteName, options)])
                | Some text \<Rightarrow>
                    (Inr text,
                     st\<lparr> cachedLlmsTxt := Some text, cachedLlmsHash := Some currentHash,
                         cachedLlmsGeneratedAt := llmsNow w \<rparr>,
                     [(contentDir, siteName, options)]))))"

definition invalidateLlmsCache :: "llms_state \<Rightarrow> llms_state" where
  "invalidateLlmsCache st = \<lparr> cachedLlmsTxt = None, cachedLlmsHash = None,
                               cachedLlmsGeneratedAt = 0, sectionCache = Map.empty \<rparr>"

text \<open>
  A run of calls for one content directory and one set of options, each with its world and
  site name: the results in order, the state at the end, all calls of the generator.
\<close>

fun getCachedLlmsTxts ::
  "(string \<Rightarrow> string) \<Rightarrow> llms_state \<Rightarrow> string \<Rightarrow> LlmGeneratorOptions
     \<Rightarrow> (llms_world \<times> string) list
     \<Rightarrow> (llms_error + string) list \<times> llms_state \<times> (string \<times> string \<times> LlmGeneratorOptions) list" where
  "getCachedLlmsTxts digest st contentDir options [] = ([], st, [])"
| "getCachedLlmsTxts digest st contentDir options ((w, siteName) # later) =
     (case getCachedLlmsTxt digest w st contentDir siteName options of
        (r, st', calls) \<Rightarrow>
          (case getCachedLlmsTxts digest st' contentDir options later of
             (rs, st'', calls') \<Rightarrow> (r # rs, st'', calls @ calls')))"

text \<open>
  The entry for the key of \<open>options\<close>: a text stored with a hash (the full-tree entry when
  no sections are given).
\<close>

definition storedEntry :: "llms_state \<Rightarrow> LlmGeneratorOptions \<Rightarrow> (string \<times> string) option" where
  "storedEntry st options =
     (if sectionsGiven options then sectionCache st (sectionKeyOf options)
      else (case (cachedLlmsTxt st, cachedLlmsHash st) of
              (Some text, Some hash) \<Rightarrow> Some (text, hash)
            | _ \<Rightarrow> None))"

subsection \<open>Example inputs for the aggregate cache\<close>

definition ex_site1 :: "fsnode list" where
  "ex_site1 = [ Dir ''api'' [File ''users.md'' 1], Dir ''guides'' [File ''intro.md'' 1] ]"

definition ex_site2 :: "fsnode list" where
  "ex_site2 = [ Dir ''api'' [File ''users.md'' 1], Dir ''guides'' [File ''intro.md'' 2] ]"

definition ex_llms_world :: "string \<Rightarrow> fsnode list \<Rightarrow> int \<Rightarrow> llms_world" where
  "ex_llms_world out tree t =
     \<lparr> generateLlmText = (\<lambda>dir site options. Some out), contentTree = Some tree, llmsNow = t \<rparr>"

definition ex_api :: LlmGeneratorOptions where
  "ex_api = \<lparr> sections = Some [''api''] \<rparr>"

definition ex_guides :: LlmGeneratorOptions where
  "ex_guides = \<lparr> sections = Some [''guides''] \<rparr>"

definition ex_full :: LlmGeneratorOptions where
  "ex_full = \<lparr> sections = None \<rparr>"

definition ex_hash1 :: string where
  "ex_hash1 = ''/c/api/users.md:1\<newline>/c/guides/intro.md:1''"

definition ex_hash2 :: string where
  "ex_hash2 = ''/c/api/users.md:1\<newline>/c/guides/intro.md:2''"

definition ex_llms_s1 :: llms_state where
  "ex_llms_s1 = \<lparr> cachedLlmsTxt = None, cachedLlmsHash = None, cachedLlmsGeneratedAt = 0,
                   sectionCache = [''api'' \<mapsto> (''api text v1'', ex_hash1)] \<rparr>"

definition ex_llms_s2 :: llms_state where
  "ex_llms_s2 = \<lparr> cachedLlmsTxt = None, cachedLlmsHash = None, cachedLlmsGeneratedAt = 0,
                   sectionCache = [''api'' \<mapsto> (''api text v2'', ex_hash2)] \<rparr>"

section \<open>Theorems\<close>

subsection \<open>The brand cache\<close>

lemma getBrandConfig_caches:
  "getBrandConfig y fs st dir = (c, st') \<Longrightarrow> brandCache st' = Some c"
  by (auto simp: getBrandConfig_def Let_def split: option.splits if_splits prod.splits)

lemma getBrandConfig_absent:
  assumes "brandCache st = Some c" and "\<not> existsSync fs (pathJoin dir ''_brand.md'')"
  shows "getBrandConfig y fs st dir = (c, st)"
  using assms by (simp add: getBrandConfig_def)

lemma getBrandConfigs_absent:
  assumes "brandCache st = Some c"
    and "\<forall>(fs, dir) \<in> set calls. \<not> existsSync fs (pathJoin dir ''_brand.md'')"
  shows "getBrandConfigs y st calls = (replicate (length calls) c, st)"
  using assms
proof (induction calls)
  case Nil
  then show ?case by simp
next
  case (Cons call calls)
  obtain fs dir where call: "call = (fs, dir)" by (cases call)
  with Cons.prems have "getBrandConfig y fs st dir = (c, st)"
    by (simp add: getBrandConfig_absent)
  moreover from Cons have "getBrandConfigs y st calls = (replicate (length calls) c, st)"
    by simp
  ultimately show ?case by (simp add: call)
qed

text \<open>
  Claim C10. Once a call of \<^verbatim>\<open>getBrandConfig\<close> that found \<^verbatim>\<open>_brand.md\<close> has cached a
  configuration \<open>c\<close>, every later call that finds the file absent returns \<open>c\<close> (not the
  defaults) and leaves the module state as it is, however many such calls follow; only
  \<^verbatim>\<open>invalidateBrandCache\<close> (or a fresh state) drops the entry: after it, a call with
  the file absent returns the defaults.
\<close>

theorem brand_cache_survives_deletion:
  assumes "existsSync fs0 (pathJoin dir0 ''_brand.md'')"
    and "getBrandConfig y0 fs0 st0 dir0 = (c, st1)"
    and "\<forall>(fs, dir) \<in> set calls. \<not> existsSync fs (pathJoin dir ''_brand.md'')"
    and "\<not> existsSync fs' (pathJoin dir' ''_brand.md'')"
  shows "getBrandConfigs y st1 calls = (replicate (length calls) c, st1)
       \<and> fst (getBrandConfig y fs' (invalidateBrandCache st1) dir') = DEFAULT_BRAND"
proof -
  have "brandCache st1 = Some c"
    using assms(2) by (rule getBrandConfig_caches)
  then have "getBrandConfigs y st1 calls = (replicate (length calls) c, st1)"
    using assms(3) by (rule getBrandConfigs_absent)
  moreover have "fst (getBrandConfig y fs' (invalidateBrandCache st1) dir') = DEFAULT_BRAND"
    using assms(4) by (simp add: getBrandConfig_def invalidateBrandCache_def)
  ultimately show ?thesis by simp
qed

lemma ex_brand_first_call:
  "getBrandConfig ex_yaml ex_fs_brand brand_initial ''/c''
     = (ex_brand, \<lparr> brandCache = Some ex_brand, brandMtime = 7 \<rparr>)"
  by (simp add: getBrandConfig_def ex_yaml_def ex_fs_brand_def brand_initial_def pathJoin_def
      loadBrand_def frontmatterMatch_def startsWith_def brandFromFrontmatter_def jsOr_def
      stripDotSlash_def parseHeaderStyle_def ex_brand_def)

theorem brand_cache_survives_deletion_witness:
  "existsSync ex_fs_brand (pathJoin ''/c'' ''_brand.md'')
   \<and> getBrandConfig ex_yaml ex_fs_brand brand_initial ''/c''
       = (ex_brand, \<lparr> brandCache = Some ex_brand, brandMtime = 7 \<rparr>)
   \<and> \<not> existsSync ex_fs_empty (pathJoin ''/c'' ''_brand.md'')
   \<and> getBrandConfigs ex_yaml \<lparr> brandCache = Some ex_brand, brandMtime = 7 \<rparr>
        [(ex_fs_empty, ''/c''), (ex_fs_empty, ''/c'')]
       = ([ex_brand, ex_brand], \<lparr> brandCache = Some ex_brand, brandMtime = 7 \<rparr>)
   \<and> ex_brand \<noteq> DEFAULT_BRAND
   \<and> fst (getBrandConfig ex_yaml ex_fs_empty
         (invalidateBrandCache \<lparr> brandCache = Some ex_brand, brandMtime = 7 \<rparr>) ''/c'')
       = DEFAULT_BRAND"
proof -
  have h1: "existsSync ex_fs_brand (pathJoin ''/c'' ''_brand.md'')"
    by (simp add: ex_fs_brand_def pathJoin_def)
  have h3: "\<forall>(fs, dir) \<in> set [(ex_fs_empty, ''/c''), (ex_fs_empty, ''/c'')].
         \<not> existsSync fs (pathJoin dir ''_brand.md'')"
    by (simp add: ex_fs_empty_def)
  have h4: "\<not> existsSync ex_fs_empty (pathJoin ''/c'' ''_brand.md'')"
    by (simp add: ex_fs_empty_def)
  have ne: "ex_brand \<noteq> DEFAULT_BRAND"
    by (simp add: ex_brand_def DEFAULT_BRAND_def)
  show ?thesis
    using brand_cache_survives_deletion [OF h1 ex_brand_first_call h3 h4, of ex_yaml]
      h1 h4 ne ex_brand_first_call
    by simp
qed

subsection \<open>The directory configuration cache\<close>

lemmas cfg_eval_defs =
  resolveDirectoryConfig_def isCacheValid_def configCacheKey_def normalizeDir_def configPathOf_def
  storeConfig_def parseConfigFile_def extractConfigFrontmatter_def configFromFrontmatter_def
  frontmatterMatch_def startsWith_def endsWith_def pathJoin_def envOr_def jsOr_def
  parseDateFormat_def CACHE_TTL_def config_initial_def invalidateConfigCache_def
  DEFAULT_DOCS_CONFIG_def DEFAULT_BLOG_CONFIG_def

text \<open>
  Claim C7, as stated, fails in development. The entry for directory \<open>a\<close> is computed at
  time 100000 (no \<^verbatim>\<open>_config.md\<close>, so the docs defaults); the entry for \<open>b\<close> is computed at
  time 104000, which moves the one \<^verbatim>\<open>cacheTimestamp\<close>; at time 106000 the entry for \<open>a\<close>
  is more than 5000 ms old, \<open>a/_config.md\<close> now asks for the blog layout, and the call
  still returns the cached docs defaults without touching the state.
\<close>

theorem config_staleness_per_entry_counterexample:
  "resolveDirectoryConfig ex_yaml_blog (ex_world ex_fs_empty None 100000) config_initial ''/c'' ''a''
     = (DEFAULT_DOCS_CONFIG, ex_cfg_s1, [])
   \<and> resolveDirectoryConfig ex_yaml_blog (ex_world ex_fs_empty None 104000) ex_cfg_s1 ''/c'' ''b''
     = (DEFAULT_DOCS_CONFIG, ex_cfg_s2, [])
   \<and> CACHE_TTL < dateNow (ex_world ex_fs_blog None 106000) - dateNowStore (ex_world ex_fs_empty None 100000)
   \<and> resolveDirectoryConfig ex_yaml_blog (ex_world ex_fs_blog None 106000) ex_cfg_s2 ''/c'' ''a''
     = (DEFAULT_DOCS_CONFIG, ex_cfg_s2, [])
   \<and> layout (fst (resolveDirectoryConfig ex_yaml_blog (ex_world ex_fs_blog None 106000)
         config_initial ''/c'' ''a'')) = Blog"
  by (simp add: cfg_eval_defs ex_world_def ex_fs_empty_def ex_fs_blog_def ex_yaml_blog_def
      ex_cfg_s1_def ex_cfg_s2_def)

lemma resolve_hit:
  assumes "configCache st (configCacheKey root dir) = Some c" and "isCacheValid w st"
  shows "resolveDirectoryConfig y w st root dir = (c, st, [])"
  using assms by (simp add: resolveDirectoryConfig_def Let_def)

lemma resolve_miss_state:
  assumes "\<not> isCacheValid w st \<or> configCache st (configCacheKey root dir) = None"
  shows "\<exists>c' l. resolveDirectoryConfig y w st root dir
           = (c', storeConfig w st (configCacheKey root dir) c', l)
         \<and> fst (resolveDirectoryConfig y w (invalidateConfigCache st) root dir) = c'"
proof -
  have a: "(if isCacheValid w st then configCache st (configCacheKey root dir) else None) = None"
    using assms by auto
  have b: "(if isCacheValid w (invalidateConfigCache st)
            then configCache (invalidateConfigCache st) (configCacheKey root dir) else None) = None"
    by (simp add: invalidateConfigCache_def)
  show ?thesis
    unfolding resolveDirectoryConfig_def Let_def a b
    by (auto split: prod.splits)
qed

text \<open>
  Claim C7, amended. For a key that is in the cache: in production the call returns the
  stored configuration and leaves the state as it is, whatever the clock says. In
  development it does so exactly while fewer than 5000 ms separate the clock from the
  module's single \<^verbatim>\<open>cacheTimestamp\<close>; from 5000 ms on, the configuration is computed
  afresh (as on an empty cache) and stored. That timestamp is shared: computing the entry
  of any key that was not cached sets it to the time of that computation, so the window
  is measured from the latest computation of any entry, not per entry.
\<close>

theorem config_cache_shared_timestamp:
  assumes "configCache st (configCacheKey root dir) = Some c"
  shows "(env_NODE_ENV w = Some ''production''
            \<longrightarrow> resolveDirectoryConfig y w st root dir = (c, st, []))
       \<and> (env_NODE_ENV w \<noteq> Some ''production'' \<and> dateNow w - cacheTimestamp st < 5000
            \<longrightarrow> resolveDirectoryConfig y w st root dir = (c, st, []))
       \<and> (env_NODE_ENV w \<noteq> Some ''production'' \<and> 5000 \<le> dateNow w - cacheTimestamp st
            \<longrightarrow> (\<exists>c' l. resolveDirectoryConfig y w st root dir
                          = (c', storeConfig w st (configCacheKey root dir) c', l)
                  \<and> fst (resolveDirectoryConfig y w (invalidateConfigCache st) root dir) = c'))
       \<and> (configCache st (configCacheKey root' dir') = None
            \<longrightarrow> cacheTimestamp (fst (snd (resolveDirectoryConfig y w st root' dir')))
                  = dateNowStore w)"
proof (intro conjI impI)
  assume "env_NODE_ENV w = Some ''production''"
  then have "isCacheValid w st" by (simp add: isCacheValid_def)
  with assms show "resolveDirectoryConfig y w st root dir = (c, st, [])"
    by (rule resolve_hit)
next
  assume "env_NODE_ENV w \<noteq> Some ''production'' \<and> dateNow w - cacheTimestamp st < 5000"
  then have "isCacheValid w st" by (simp add: isCacheValid_def CACHE_TTL_def)
  with assms show "resolveDirectoryConfig y w st root dir = (c, st, [])"
    by (rule resolve_hit)
next
  assume "env_NODE_ENV w \<noteq> Some ''production'' \<and> 5000 \<le> dateNow w - cacheTimestamp st"
  then have "\<not> isCacheValid w st" by (simp add: isCacheValid_def CACHE_TTL_def)
  then show "\<exists>c' l. resolveDirectoryConfig y w st root dir
                 = (c', storeConfig w st (configCacheKey root dir) c', l)
             \<and> fst (resolveDirectoryConfig y w (invalidateConfigCache st) root dir) = c'"
    using resolve_miss_state by blast
next
  assume "configCache st (configCacheKey root' dir') = None"
  then obtain c' l where "resolveDirectoryConfig y w st root' dir'
      = (c', storeConfig w st (configCacheKey root' dir') c', l)"
    using resolve_miss_state by blast
  then show "cacheTimestamp (fst (snd (resolveDirectoryConfig y w st root' dir'))) = dateNowStore w"
    by (simp add: storeConfig_def)
qed

theorem config_cache_shared_timestamp_witness:
  "configCache ex_cfg_s2 (configCacheKey ''/c'' ''a'') = Some DEFAULT_DOCS_CONFIG
   \<and> resolveDirectoryConfig ex_yaml_blog (ex_world ex_fs_blog (Some ''production'') 999999)
         ex_cfg_s2 ''/c'' ''a'' = (DEFAULT_DOCS_CONFIG, ex_cfg_s2, [])
   \<and> resolveDirectoryConfig ex_yaml_blog (ex_world ex_fs_blog None 106000)
         ex_cfg_s2 ''/c'' ''a'' = (DEFAULT_DOCS_CONFIG, ex_cfg_s2, [])
   \<and> layout (fst (resolveDirectoryConfig ex_yaml_blog (ex_world ex_fs_blog None 109000)
         ex_cfg_s2 ''/c'' ''a'')) = Blog
   \<and> configCache ex_cfg_s2 (configCacheKey ''/c'' ''z'') = None
   \<and> cacheTimestamp (fst (snd (resolveDirectoryConfig ex_yaml_blog
         (ex_world ex_fs_empty None 104500) ex_cfg_s2 ''/c'' ''z''))) = 104500"
proof -
  have h: "configCache ex_cfg_s2 (configCacheKey ''/c'' ''a'') = Some DEFAULT_DOCS_CONFIG"
    by (simp add: ex_cfg_s2_def configCacheKey_def normalizeDir_def startsWith_def endsWith_def)
  have z: "configCache ex_cfg_s2 (configCacheKey ''/c'' ''z'') = None"
    by (simp add: ex_cfg_s2_def configCacheKey_def normalizeDir_def startsWith_def endsWith_def)
  note t = config_cache_shared_timestamp [OF h, of _ ex_yaml_blog "''/c''" "''z''"]
  have p: "resolveDirectoryConfig ex_yaml_blog (ex_world ex_fs_blog (Some ''production'') 999999)
         ex_cfg_s2 ''/c'' ''a'' = (DEFAULT_DOCS_CONFIG, ex_cfg_s2, [])"
    using t [of "ex_world ex_fs_blog (Some ''production'') 999999"]
    by (simp add: ex_world_def)
  have d: "resolveDirectoryConfig ex_yaml_blog (ex_world ex_fs_blog None 106000)
         ex_cfg_s2 ''/c'' ''a'' = (DEFAULT_DOCS_CONFIG, ex_cfg_s2, [])"
    using t [of "ex_world ex_fs_blog None 106000"]
    by (simp add: ex_world_def ex_cfg_s2_def)
  have e: "layout (fst (resolveDirectoryConfig ex_yaml_blog (ex_world ex_fs_blog None 109000)
         ex_cfg_s2 ''/c'' ''a'')) = Blog"
    using t [of "ex_world ex_fs_blog None 109000"]
    by (simp add: cfg_eval_defs ex_world_def ex_fs_blog_def ex_yaml_blog_def ex_cfg_s2_def)
  have f: "cacheTimestamp (fst (snd (resolveDirectoryConfig ex_yaml_blog
         (ex_world ex_fs_empty None 104500) ex_cfg_s2 ''/c'' ''z''))) = 104500"
    using t [of "ex_world ex_fs_empty None 104500"] z
    by (simp add: ex_world_def)
  from h z p d e f show ?thesis by simp
qed

text \<open>
  Claim C8. \<^verbatim>\<open>resolveDirectoryConfig\<close> has no failing outcome: each call that can throw
  sits in a \<^verbatim>\<open>try\<close> block of \<^verbatim>\<open>parseConfigFile\<close> or \<^verbatim>\<open>extractConfigFrontmatter\<close>.
  When the call is not answered from the cache and \<^verbatim>\<open>_config.md\<close> exists, then an
  unreadable file, a frontmatter that \<^verbatim>\<open>yaml.parse\<close> rejects, and an exception while
  the fields are built each give the built-in docs defaults, stored in the cache and
  returned together with a logged warning.
\<close>

theorem resolveDirectoryConfig_absorbs_errors:
  assumes miss: "\<not> isCacheValid w st \<or> configCache st (configCacheKey root dir) = None"
    and present: "existsSync (files w) (configPathOf root dir)"
  shows "(readFileSync (files w) (configPathOf root dir) = None
            \<longrightarrow> resolveDirectoryConfig y w st root dir
                = (DEFAULT_DOCS_CONFIG,
                   storeConfig w st (configCacheKey root dir) DEFAULT_DOCS_CONFIG,
                   [''Error reading config'']))
       \<and> (\<forall>content m. readFileSync (files w) (configPathOf root dir) = Some content
             \<and> frontmatterMatch content = Some m \<and> y m = None
            \<longrightarrow> resolveDirectoryConfig y w st root dir
                = (DEFAULT_DOCS_CONFIG,
                   storeConfig w st (configCacheKey root dir) DEFAULT_DOCS_CONFIG,
                   [''Failed to parse _config.md frontmatter'']))
       \<and> (\<forall>content fm warns. readFileSync (files w) (configPathOf root dir) = Some content
             \<and> extractConfigFrontmatter y content = (fm, warns)
             \<and> configFromFrontmatter fm = None
            \<longrightarrow> resolveDirectoryConfig y w st root dir
                = (DEFAULT_DOCS_CONFIG,
                   storeConfig w st (configCacheKey root dir) DEFAULT_DOCS_CONFIG,
                   warns @ [''Error reading config'']))"
proof -
  have a: "(if isCacheValid w st then configCache st (configCacheKey root dir) else None) = None"
    using miss by auto
  have empty: "configFromFrontmatter (JObj []) = Some DEFAULT_DOCS_CONFIG"
    by (simp add: configFromFrontmatter_def jsOr_def parseDateFormat_def DEFAULT_DOCS_CONFIG_def)
  have r: "resolveDirectoryConfig y w st root dir =
     (case parseConfigFile y (files w) (configPathOf root dir) of
        (config, warns) \<Rightarrow> (config, storeConfig w st (configCacheKey root dir) config, warns))"
    unfolding resolveDirectoryConfig_def Let_def a using present by simp
  show ?thesis
    unfolding r
    by (auto simp: parseConfigFile_def extractConfigFrontmatter_def empty)
qed

theorem resolveDirectoryConfig_absorbs_errors_witness:
  "configCache config_initial (configCacheKey ''/c'' ''a'') = None
   \<and> existsSync ex_fs_unreadable (configPathOf ''/c'' ''a'')
   \<and> readFileSync ex_fs_unreadable (configPathOf ''/c'' ''a'') = None
   \<and> fst (resolveDirectoryConfig ex_yaml_cfg (ex_world ex_fs_unreadable None 10) config_initial
         ''/c'' ''a'') = DEFAULT_DOCS_CONFIG
   \<and> snd (snd (resolveDirectoryConfig ex_yaml_cfg (ex_world ex_fs_unreadable None 10)
         config_initial ''/c'' ''a'')) = [''Error reading config'']
   \<and> readFileSync ex_fs_malformed (configPathOf ''/c'' ''a'') = Some ''---\<newline>layout: [blog\<newline>---''
   \<and> frontmatterMatch ''---\<newline>layout: [blog\<newline>---'' = Some ''layout: [blog''
   \<and> ex_yaml_cfg ''layout: [blog'' = None
   \<and> fst (resolveDirectoryConfig ex_yaml_cfg (ex_world ex_fs_malformed None 10) config_initial
         ''/c'' ''a'') = DEFAULT_DOCS_CONFIG
   \<and> snd (snd (resolveDirectoryConfig ex_yaml_cfg (ex_world ex_fs_malformed None 10)
         config_initial ''/c'' ''a'')) = [''Failed to parse _config.md frontmatter'']
   \<and> configFromFrontmatter (JObj [(''hero_image'', JNum 5)]) = None
   \<and> fst (resolveDirectoryConfig ex_yaml_cfg (ex_world ex_fs_badfield None 10) config_initial
         ''/c'' ''a'') = DEFAULT_DOCS_CONFIG
   \<and> snd (snd (resolveDirectoryConfig ex_yaml_cfg (ex_world ex_fs_badfield None 10)
         config_initial ''/c'' ''a'')) = [''Error reading config'']"
proof -
  have path: "configPathOf ''/c'' ''a'' = ''/c/a/_config.md''"
    by (simp add: configPathOf_def normalizeDir_def startsWith_def endsWith_def pathJoin_def)
  have k: "configCache config_initial (configCacheKey ''/c'' ''a'') = None"
    by (simp add: config_initial_def)
  have fm1: "frontmatterMatch ''---\<newline>layout: [blog\<newline>---'' = Some ''layout: [blog''"
    by (simp add: frontmatterMatch_def startsWith_def)
  have fm2: "frontmatterMatch ''---\<newline>hero_image: 5\<newline>---'' = Some ''hero_image: 5''"
    by (simp add: frontmatterMatch_def startsWith_def)
  have bad: "configFromFrontmatter (JObj [(''hero_image'', JNum 5)]) = None"
    by (simp add: configFromFrontmatter_def jsOr_def)
  have x3: "extractConfigFrontmatter ex_yaml_cfg ''---\<newline>hero_image: 5\<newline>---''
              = (JObj [(''hero_image'', JNum 5)], [])"
    by (simp add: extractConfigFrontmatter_def fm2 ex_yaml_cfg_def jsOr_def)
  have u: "resolveDirectoryConfig ex_yaml_cfg (ex_world ex_fs_unreadable None 10) config_initial
         ''/c'' ''a'' = (DEFAULT_DOCS_CONFIG,
            storeConfig (ex_world ex_fs_unreadable None 10) config_initial
              (configCacheKey ''/c'' ''a'') DEFAULT_DOCS_CONFIG, [''Error reading config''])"
    using resolveDirectoryConfig_absorbs_errors
      [of "ex_world ex_fs_unreadable None 10" config_initial "''/c''" "''a''" ex_yaml_cfg] k
    by (simp add: path ex_world_def ex_fs_unreadable_def)
  have m: "resolveDirectoryConfig ex_yaml_cfg (ex_world ex_fs_malformed None 10) config_initial
         ''/c'' ''a'' = (DEFAULT_DOCS_CONFIG,
            storeConfig (ex_world ex_fs_malformed None 10) config_initial
              (configCacheKey ''/c'' ''a'') DEFAULT_DOCS_CONFIG,
            [''Failed to parse _config.md frontmatter''])"
    using resolveDirectoryConfig_absorbs_errors
      [of "ex_world ex_fs_malformed None 10" config_initial "''/c''" "''a''" ex_yaml_cfg] k fm1
    by (simp add: path ex_world_def ex_fs_malformed_def ex_yaml_cfg_def)
  have b: "resolveDirectoryConfig ex_yaml_cfg (ex_world ex_fs_badfield None 10) config_initial
         ''/c'' ''a'' = (DEFAULT_DOCS_CONFIG,
            storeConfig (ex_world ex_fs_badfield None 10) config_initial
              (configCacheKey ''/c'' ''a'') DEFAULT_DOCS_CONFIG, [''Error reading config''])"
    using resolveDirectoryConfig_absorbs_errors
      [of "ex_world ex_fs_badfield None 10" config_initial "''/c''" "''a''" ex_yaml_cfg] k x3 bad
    by (simp add: path ex_world_def ex_fs_badfield_def)
  show ?thesis
    using k fm1 bad u m b
    by (simp add: path ex_fs_unreadable_def ex_fs_malformed_def ex_yaml_cfg_def)
qed

subsection \<open>The image pipeline\<close>

lemma parseDimension_range:
  "parseDimension limit v = Some n \<Longrightarrow> 0 < n \<and> n \<le> limit"
  by (auto simp: parseDimension_def split: option.splits if_splits)

lemma parseQuality_range:
  "parseQuality v = Some n \<Longrightarrow> 1 \<le> n \<and> n \<le> 100"
  by (auto simp: parseQuality_def split: option.splits if_splits)

lemma parseDimension_invalid:
  "invalidNumber 1 limit v \<Longrightarrow> parseDimension limit v = None"
  by (auto simp: parseDimension_def invalidNumber_def split: option.splits)

lemma parseQuality_invalid:
  "invalidNumber 1 100 v \<Longrightarrow> parseQuality v = None"
  by (auto simp: parseQuality_def invalidNumber_def split: option.splits)

lemma parseImageOptions_fields:
  assumes "parseImageOptions query = Some opts"
  shows "width opts = parseDimension MAX_WIDTH (qOr (query ''w'') (query ''width''))"
    and "height opts = parseDimension MAX_HEIGHT (qOr (query ''h'') (query ''height''))"
    and "format opts = parseFormat (qOr (query ''f'') (query ''format''))"
    and "quality opts = parseQuality (qOr (query ''q'') (query ''quality''))"
    and "opts \<noteq> noOptions"
  using assms by (auto simp: parseImageOptions_def Let_def split: if_splits)

text \<open>
  Claim C9. \<^verbatim>\<open>parseImageOptions\<close> has no failing outcome: for every query it gives
  options or \<^verbatim>\<open>null\<close>. In options it returns, at least one parameter is present, a
  width lies in 1..3840, a height in 1..2160 and a quality in 1..100; a value given for
  \<open>w\<close>, \<open>h\<close> or \<open>q\<close> that \<^verbatim>\<open>parseInt\<close> does not read as a number, or reads as one
  outside these bounds, leaves that parameter absent; and when no parameter is valid the
  result is \<^verbatim>\<open>null\<close>. (A number is what \<^verbatim>\<open>parseInt\<close> reads: \<^verbatim>\<open>800px\<close> is 800.)
\<close>

theorem parseImageOptions_total_and_bounded:
  "(\<forall>opts. parseImageOptions query = Some opts \<longrightarrow>
        opts \<noteq> noOptions
      \<and> (\<forall>n. width opts = Some n \<longrightarrow> 0 < n \<and> n \<le> 3840)
      \<and> (\<forall>n. height opts = Some n \<longrightarrow> 0 < n \<and> n \<le> 2160)
      \<and> (\<forall>n. quality opts = Some n \<longrightarrow> 1 \<le> n \<and> n \<le> 100)
      \<and> (invalidNumber 1 3840 (qOr (query ''w'') (query ''width'')) \<longrightarrow> width opts = None)
      \<and> (invalidNumber 1 2160 (qOr (query ''h'') (query ''height'')) \<longrightarrow> height opts = None)
      \<and> (invalidNumber 1 100 (qOr (query ''q'') (query ''quality'')) \<longrightarrow> quality opts = None))
   \<and> (parseDimension MAX_WIDTH (qOr (query ''w'') (query ''width'')) = None
        \<and> parseDimension MAX_HEIGHT (qOr (query ''h'') (query ''height'')) = None
        \<and> parseFormat (qOr (query ''f'') (query ''format'')) = None
        \<and> parseQuality (qOr (query ''q'') (query ''quality'')) = None
       \<longrightarrow> parseImageOptions query = None)"
proof (intro conjI allI impI)
  fix opts
  assume p: "parseImageOptions query = Some opts"
  note f = parseImageOptions_fields [OF p]
  show "opts \<noteq> noOptions" by (rule f(5))
  { fix n assume "width opts = Some n"
    then show "0 < n" and "n \<le> 3840"
      using parseDimension_range [of MAX_WIDTH _ n] f(1) by (simp_all add: MAX_WIDTH_def) }
  { fix n assume "height opts = Some n"
    then show "0 < n" and "n \<le> 2160"
      using parseDimension_range [of MAX_HEIGHT _ n] f(2) by (simp_all add: MAX_HEIGHT_def) }
  { fix n assume "quality opts = Some n"
    then show "1 \<le> n" and "n \<le> 100"
      using parseQuality_range [of _ n] f(4) by simp_all }
  { assume "invalidNumber 1 3840 (qOr (query ''w'') (query ''width''))"
    then show "width opts = None"
      using parseDimension_invalid [of MAX_WIDTH] f(1) by (simp add: MAX_WIDTH_def) }
  { assume "invalidNumber 1 2160 (qOr (query ''h'') (query ''height''))"
    then show "height opts = None"
      using parseDimension_invalid [of MAX_HEIGHT] f(2) by (simp add: MAX_HEIGHT_def) }
  { assume "invalidNumber 1 100 (qOr (query ''q'') (query ''quality''))"
    then show "quality opts = None"
      using parseQuality_invalid f(4) by simp }
next
  assume "parseDimension MAX_WIDTH (qOr (query ''w'') (query ''width'')) = None
        \<and> parseDimension MAX_HEIGHT (qOr (query ''h'') (query ''height'')) = None
        \<and> parseFormat (qOr (query ''f'') (query ''format'')) = None
        \<and> parseQuality (qOr (query ''q'') (query ''quality'')) = None"
  then show "parseImageOptions query = None"
    by (simp add: parseImageOptions_def Let_def noOptions_def)
qed

lemmas img_parse_defs =
  parseImageOptions_def qOr_def parseDimension_def parseFormat_def parseQuality_def
  parseInt_def isWhiteSpace_def isDigit_def digitVal_def digitsValue_def toLowerCase_def
  lowerChar_def SUPPORTED_FORMATS_def MAX_WIDTH_def MAX_HEIGHT_def noOptions_def Let_def
  invalidNumber_def

theorem parseImageOptions_total_and_bounded_witness:
  "parseImageOptions ex_query
     = Some \<lparr> width = Some 800, height = None, format = Some ''webp'', quality = None \<rparr>
   \<and> invalidNumber 1 2160 (qOr (ex_query ''h'') (ex_query ''height''))
   \<and> invalidNumber 1 100 (qOr (ex_query ''q'') (ex_query ''quality''))
   \<and> (0::int) < 800 \<and> (800::int) \<le> 3840
   \<and> invalidNumber 1 3840 (qOr (ex_query_bad ''w'') (ex_query_bad ''width''))
   \<and> invalidNumber 1 2160 (qOr (ex_query_bad ''h'') (ex_query_bad ''height''))
   \<and> invalidNumber 1 100 (qOr (ex_query_bad ''q'') (ex_query_bad ''quality''))
   \<and> parseImageOptions ex_query_bad = None"
proof -
  have a: "parseImageOptions ex_query
     = Some \<lparr> width = Some 800, height = None, format = Some ''webp'', quality = None \<rparr>"
    by (simp add: img_parse_defs ex_query_def)
  have b: "parseDimension MAX_WIDTH (qOr (ex_query_bad ''w'') (ex_query_bad ''width'')) = None
        \<and> parseDimension MAX_HEIGHT (qOr (ex_query_bad ''h'') (ex_query_bad ''height'')) = None
        \<and> parseFormat (qOr (ex_query_bad ''f'') (ex_query_bad ''format'')) = None
        \<and> parseQuality (qOr (ex_query_bad ''q'') (ex_query_bad ''quality'')) = None"
    by (simp add: img_parse_defs ex_query_bad_def)
  have c: "invalidNumber 1 2160 (qOr (ex_query ''h'') (ex_query ''height''))
     \<and> invalidNumber 1 100 (qOr (ex_query ''q'') (ex_query ''quality''))
     \<and> invalidNumber 1 3840 (qOr (ex_query_bad ''w'') (ex_query_bad ''width''))
     \<and> invalidNumber 1 2160 (qOr (ex_query_bad ''h'') (ex_query_bad ''height''))
     \<and> invalidNumber 1 100 (qOr (ex_query_bad ''q'') (ex_query_bad ''quality''))"
    by (simp add: img_parse_defs ex_query_def ex_query_bad_def)
  show ?thesis
    using parseImageOptions_total_and_bounded [of ex_query]
      parseImageOptions_total_and_bounded [of ex_query_bad] a b c
    by simp
qed

lemma processImageBuffer_fails:
  assumes "\<not> fst (getSharp w st) \<or> sharp w buf (resizeOf opts) (encoderOf opts) = None"
  shows "fst (processImageBuffer w st buf opts) = None"
  using assms by (auto simp: processImageBuffer_def Let_def split: prod.splits bool.splits option.splits)

lemma getProcessedImage_miss:
  assumes "checkDiskCache (disk w) src (cachePathOf src dir opts) = None"
    and "readFileSync (disk w) src = Some buf"
  shows "outcome (getProcessedImage w st src dir opts) = Inr (fst (processImageBuffer w st buf opts))"
    and "codecRuns (getProcessedImage w st src dir opts)
           = fst (snd (snd (processImageBuffer w st buf opts)))"
  using assms
  by (auto simp: getProcessedImage_def Let_def split: prod.splits option.splits)

lemma getSharp_write_flags [simp]:
  "getSharp (w\<lparr> mkdirOk := m, writeFileOk := k \<rparr>) st = getSharp w st"
  by (simp add: getSharp_def)

lemma processImageBuffer_write_flags [simp]:
  "processImageBuffer (w\<lparr> mkdirOk := m, writeFileOk := k \<rparr>) st buf opts
     = processImageBuffer w st buf opts"
  by (auto simp: processImageBuffer_def split: prod.splits bool.splits)

lemma outcome_write_flags:
  "outcome (getProcessedImage (w\<lparr> mkdirOk := m, writeFileOk := k \<rparr>) st src dir opts)
     = outcome (getProcessedImage w st src dir opts)"
  by (auto simp: getProcessedImage_def Let_def split: prod.splits option.splits)

text \<open>
  Claim C4. Whenever \<^verbatim>\<open>getProcessedImage\<close> gets as far as the codec (the disk cache
  gives no derivative and the source has been read), a library that is not available and
  a pipeline that raises both make it return \<^verbatim>\<open>null\<close>, the sign to serve the original,
  and not an error. Whether \<^verbatim>\<open>mkdir\<close> and \<^verbatim>\<open>writeFile\<close> succeed or fail never changes
  what the call returns. And once the source can be read, the call does not reject,
  whatever the codec and the disk cache do.
\<close>

theorem getProcessedImage_falls_back_on_codec_failure:
  "(checkDiskCache (disk w) src (cachePathOf src dir opts) = None
      \<and> readFileSync (disk w) src = Some buf
      \<and> (\<not> fst (getSharp w st) \<or> sharp w buf (resizeOf opts) (encoderOf opts) = None)
     \<longrightarrow> outcome (getProcessedImage w st src dir opts) = Inr None)
   \<and> outcome (getProcessedImage (w\<lparr> mkdirOk := m, writeFileOk := k \<rparr>) st src dir opts)
       = outcome (getProcessedImage w st src dir opts)
   \<and> (readFileSync (disk w) src = Some buf
     \<longrightarrow> outcome (getProcessedImage w st src dir opts) \<noteq> Inl SourceReadError)"
proof (intro conjI impI)
  assume a: "checkDiskCache (disk w) src (cachePathOf src dir opts) = None
      \<and> readFileSync (disk w) src = Some buf
      \<and> (\<not> fst (getSharp w st) \<or> sharp w buf (resizeOf opts) (encoderOf opts) = None)"
  then have "fst (processImageBuffer w st buf opts) = None"
    by (simp add: processImageBuffer_fails)
  with a show "outcome (getProcessedImage w st src dir opts) = Inr None"
    by (simp add: getProcessedImage_miss(1))
next
  show "outcome (getProcessedImage (w\<lparr> mkdirOk := m, writeFileOk := k \<rparr>) st src dir opts)
       = outcome (getProcessedImage w st src dir opts)"
    by (rule outcome_write_flags)
next
  assume "readFileSync (disk w) src = Some buf"
  then show "outcome (getProcessedImage w st src dir opts) \<noteq> Inl SourceReadError"
    by (auto simp: getProcessedImage_def Let_def split: prod.splits option.splits)
qed

lemmas img_eval_defs =
  getProcessedImage_def cachePathOf_def checkDiskCache_def writeDiskCache_def
  processImageBuffer_def getSharp_def resizeOf_def encoderOf_def getMimeType_def
  getCacheKey_def basename_def extname_def basenameExt_def endsWith_def pathJoin_def
  numOr_def strOr_def showInt_def showNat.simps digitChar_def removeDot_def toLowerCase_def
  lowerChar_def MAX_WIDTH_def MAX_HEIGHT_def DEFAULT_QUALITY_def sharp_initial_def Let_def

lemma ex_cachePath:
  "cachePathOf ''/c/assets/photo.png'' ''/c/.cache/images'' ex_opts
     = ''/c/.cache/images/photo-w800.webp''"
  by (simp add: img_eval_defs ex_opts_def)

theorem getProcessedImage_falls_back_on_codec_failure_witness:
  "checkDiskCache ex_disk_source ''/c/assets/photo.png'' ''/c/.cache/images/photo-w800.webp'' = None
   \<and> readFileSync ex_disk_source ''/c/assets/photo.png'' = Some ''PNGDATA''
   \<and> \<not> fst (getSharp (ex_image_world ex_disk_source False ex_codec_ok True) sharp_initial)
   \<and> outcome (getProcessedImage (ex_image_world ex_disk_source False ex_codec_ok True)
        sharp_initial ''/c/assets/photo.png'' ''/c/.cache/images'' ex_opts) = Inr None
   \<and> ex_codec_fails ''PNGDATA'' (resizeOf ex_opts) (encoderOf ex_opts) = None
   \<and> outcome (getProcessedImage (ex_image_world ex_disk_source True ex_codec_fails True)
        sharp_initial ''/c/assets/photo.png'' ''/c/.cache/images'' ex_opts) = Inr None
   \<and> outcome (getProcessedImage (ex_image_world ex_disk_source True ex_codec_ok False)
        sharp_initial ''/c/assets/photo.png'' ''/c/.cache/images'' ex_opts)
      = outcome (getProcessedImage (ex_image_world ex_disk_source True ex_codec_ok True)
        sharp_initial ''/c/assets/photo.png'' ''/c/.cache/images'' ex_opts)"
proof -
  have c: "checkDiskCache ex_disk_source ''/c/assets/photo.png'' ''/c/.cache/images/photo-w800.webp''
             = None"
    by (simp add: checkDiskCache_def ex_disk_source_def)
  have r: "readFileSync ex_disk_source ''/c/assets/photo.png'' = Some ''PNGDATA''"
    by (simp add: ex_disk_source_def)
  have u: "\<not> fst (getSharp (ex_image_world ex_disk_source False ex_codec_ok True) sharp_initial)"
    by (simp add: getSharp_def ex_image_world_def sharp_initial_def)
  have f: "ex_codec_fails ''PNGDATA'' (resizeOf ex_opts) (encoderOf ex_opts) = None"
    by (simp add: ex_codec_fails_def)
  have w: "ex_image_world ex_disk_source True ex_codec_ok False
             = (ex_image_world ex_disk_source True ex_codec_ok True)
                 \<lparr> mkdirOk := (\<lambda>p. True), writeFileOk := (\<lambda>p. False) \<rparr>"
    by (simp add: ex_image_world_def)
  note t = getProcessedImage_falls_back_on_codec_failure
    [where src = "''/c/assets/photo.png''" and dir = "''/c/.cache/images''" and opts = ex_opts
       and buf = "''PNGDATA''" and st = sharp_initial]
  have 1: "outcome (getProcessedImage (ex_image_world ex_disk_source False ex_codec_ok True)
        sharp_initial ''/c/assets/photo.png'' ''/c/.cache/images'' ex_opts) = Inr None"
    using t [where w = "ex_image_world ex_disk_source False ex_codec_ok True"] c r u
    by (simp add: ex_cachePath) (simp add: ex_image_world_def)
  have 2: "outcome (getProcessedImage (ex_image_world ex_disk_source True ex_codec_fails True)
        sharp_initial ''/c/assets/photo.png'' ''/c/.cache/images'' ex_opts) = Inr None"
    using t [where w = "ex_image_world ex_disk_source True ex_codec_fails True"] c r f
    by (simp add: ex_cachePath) (simp add: ex_image_world_def)
  have 3: "outcome (getProcessedImage (ex_image_world ex_disk_source True ex_codec_ok False)
        sharp_initial ''/c/assets/photo.png'' ''/c/.cache/images'' ex_opts)
      = outcome (getProcessedImage (ex_image_world ex_disk_source True ex_codec_ok True)
        sharp_initial ''/c/assets/photo.png'' ''/c/.cache/images'' ex_opts)"
    unfolding w
    using t [where w = "ex_image_world ex_disk_source True ex_codec_ok True"
               and m = "\<lambda>p. True" and k = "\<lambda>p. False"]
    by simp
  from c r u f 1 2 3 show ?thesis by simp
qed

lemma checkDiskCache_fresh:
  assumes "existsSync fs cp" and "statSync fs cp = Some c" and "statSync fs src = Some s"
    and "s \<le> c" and "readFileSync fs cp = Some b"
  shows "checkDiskCache fs src cp
           = Some \<lparr> buffer = b, mimeType = getMimeType (removeDot (toLowerCase (extname cp))),
                    outWidth = None, outHeight = None \<rparr>"
  using assms by (simp add: checkDiskCache_def)

lemma checkDiskCache_stale:
  assumes "\<not> existsSync fs cp \<or> (statSync fs cp = Some c \<and> statSync fs src = Some s \<and> c < s)"
  shows "checkDiskCache fs src cp = None"
  using assms by (auto simp: checkDiskCache_def)

lemma processImageBuffer_runs:
  "fst (snd (snd (processImageBuffer w st buf opts)))
     = (if fst (getSharp w st) then [(buf, resizeOf opts, encoderOf opts)] else [])"
  by (auto simp: processImageBuffer_def Let_def split: prod.splits bool.splits option.splits)

text \<open>
  Claim C5. When a file exists at the derivative path with a modification time not older
  than the source's (and can be read), \<^verbatim>\<open>getProcessedImage\<close> returns its bytes, runs no
  codec and leaves the loader's state alone. When there is no file at that path, or it
  is older than the source, the source's bytes go to \<^verbatim>\<open>processImageBuffer\<close>, whose
  answer is returned; the \<^verbatim>\<open>sharp\<close> pipeline runs on exactly those bytes whenever the
  library loads.
\<close>

theorem getProcessedImage_cache_decision:
  "(existsSync (disk w) (cachePathOf src dir opts)
      \<and> statSync (disk w) (cachePathOf src dir opts) = Some c
      \<and> statSync (disk w) src = Some s \<and> s \<le> c
      \<and> readFileSync (disk w) (cachePathOf src dir opts) = Some b
     \<longrightarrow> outcome (getProcessedImage w st src dir opts)
           = Inr (Some \<lparr> buffer = b,
                          mimeType = getMimeType (removeDot (toLowerCase
                                       (extname (cachePathOf src dir opts)))),
                          outWidth = None, outHeight = None \<rparr>)
         \<and> codecRuns (getProcessedImage w st src dir opts) = []
         \<and> sharpAfter (getProcessedImage w st src dir opts) = st)
   \<and> ((\<not> existsSync (disk w) (cachePathOf src dir opts)
        \<or> (statSync (disk w) (cachePathOf src dir opts) = Some c
            \<and> statSync (disk w) src = Some s \<and> c < s))
      \<and> readFileSync (disk w) src = Some buf
     \<longrightarrow> outcome (getProcessedImage w st src dir opts)
           = Inr (fst (processImageBuffer w st buf opts))
         \<and> codecRuns (getProcessedImage w st src dir opts)
           = (if fst (getSharp w st) then [(buf, resizeOf opts, encoderOf opts)] else []))"
proof (intro conjI impI)
  assume "existsSync (disk w) (cachePathOf src dir opts)
      \<and> statSync (disk w) (cachePathOf src dir opts) = Some c
      \<and> statSync (disk w) src = Some s \<and> s \<le> c
      \<and> readFileSync (disk w) (cachePathOf src dir opts) = Some b"
  then have hit: "checkDiskCache (disk w) src (cachePathOf src dir opts)
           = Some \<lparr> buffer = b,
                    mimeType = getMimeType (removeDot (toLowerCase
                                 (extname (cachePathOf src dir opts)))),
                    outWidth = None, outHeight = None \<rparr>"
    by (simp add: checkDiskCache_fresh)
  show "outcome (getProcessedImage w st src dir opts)
           = Inr (Some \<lparr> buffer = b,
                          mimeType = getMimeType (removeDot (toLowerCase
                                       (extname (cachePathOf src dir opts)))),
                          outWidth = None, outHeight = None \<rparr>)"
    and "codecRuns (getProcessedImage w st src dir opts) = []"
    and "sharpAfter (getProcessedImage w st src dir opts) = st"
    by (simp_all add: getProcessedImage_def Let_def hit)
next
  assume a: "(\<not> existsSync (disk w) (cachePathOf src dir opts)
        \<or> (statSync (disk w) (cachePathOf src dir opts) = Some c
            \<and> statSync (disk w) src = Some s \<and> c < s))
      \<and> readFileSync (disk w) src = Some buf"
  then have miss: "checkDiskCache (disk w) src (cachePathOf src dir opts) = None"
    using checkDiskCache_stale [of "disk w" "cachePathOf src dir opts" c src s] by blast
  from a have rd: "readFileSync (disk w) src = Some buf" by simp
  show "outcome (getProcessedImage w st src dir opts)
           = Inr (fst (processImageBuffer w st buf opts))"
    by (rule getProcessedImage_miss(1) [OF miss rd])
  show "codecRuns (getProcessedImage w st src dir opts)
           = (if fst (getSharp w st) then [(buf, resizeOf opts, encoderOf opts)] else [])"
    by (simp add: getProcessedImage_miss(2) [OF miss rd] processImageBuffer_runs)
qed

theorem getProcessedImage_cache_decision_witness:
  "cachePathOf ''/c/assets/photo.png'' ''/c/.cache/images'' ex_opts
     = ''/c/.cache/images/photo-w800.webp''
   \<and> existsSync (ex_disk_cached 50) ''/c/.cache/images/photo-w800.webp''
   \<and> statSync (ex_disk_cached 50) ''/c/.cache/images/photo-w800.webp'' = Some 50
   \<and> statSync (ex_disk_cached 50) ''/c/assets/photo.png'' = Some 50
   \<and> readFileSync (ex_disk_cached 50) ''/c/.cache/images/photo-w800.webp'' = Some ''WEBPDATA''
   \<and> outcome (getProcessedImage (ex_image_world (ex_disk_cached 50) True ex_codec_ok True)
        sharp_initial ''/c/assets/photo.png'' ''/c/.cache/images'' ex_opts)
      = Inr (Some \<lparr> buffer = ''WEBPDATA'', mimeType = ''image/webp'',
                     outWidth = None, outHeight = None \<rparr>)
   \<and> codecRuns (getProcessedImage (ex_image_world (ex_disk_cached 50) True ex_codec_ok True)
        sharp_initial ''/c/assets/photo.png'' ''/c/.cache/images'' ex_opts) = []
   \<and> statSync (ex_disk_cached 49) ''/c/.cache/images/photo-w800.webp'' = Some 49
   \<and> statSync (ex_disk_cached 49) ''/c/assets/photo.png'' = Some 50
   \<and> readFileSync (ex_disk_cached 49) ''/c/assets/photo.png'' = Some ''PNGDATA''
   \<and> outcome (getProcessedImage (ex_image_world (ex_disk_cached 49) True ex_codec_ok True)
        sharp_initial ''/c/assets/photo.png'' ''/c/.cache/images'' ex_opts)
      = Inr (Some \<lparr> buffer = ''small:PNGDATA'', mimeType = ''image/webp'',
                     outWidth = Some 800, outHeight = Some 600 \<rparr>)
   \<and> codecRuns (getProcessedImage (ex_image_world (ex_disk_cached 49) True ex_codec_ok True)
        sharp_initial ''/c/assets/photo.png'' ''/c/.cache/images'' ex_opts)
      = [(''PNGDATA'', Some \<lparr> resizeWidth = Some 800, resizeHeight = None \<rparr>, Webp 80)]
   \<and> \<not> existsSync ex_disk_source ''/c/.cache/images/photo-w800.webp''
   \<and> codecRuns (getProcessedImage (ex_image_world ex_disk_source True ex_codec_ok True)
        sharp_initial ''/c/assets/photo.png'' ''/c/.cache/images'' ex_opts)
      = [(''PNGDATA'', Some \<lparr> resizeWidth = Some 800, resizeHeight = None \<rparr>, Webp 80)]"
proof -
  note t = getProcessedImage_cache_decision
    [where src = "''/c/assets/photo.png''" and dir = "''/c/.cache/images''" and opts = ex_opts
       and st = sharp_initial, unfolded ex_cachePath]
  have facts:
    "existsSync (ex_disk_cached 50) ''/c/.cache/images/photo-w800.webp''"
    "statSync (ex_disk_cached 50) ''/c/.cache/images/photo-w800.webp'' = Some 50"
    "statSync (ex_disk_cached 50) ''/c/assets/photo.png'' = Some 50"
    "readFileSync (ex_disk_cached 50) ''/c/.cache/images/photo-w800.webp'' = Some ''WEBPDATA''"
    "statSync (ex_disk_cached 49) ''/c/.cache/images/photo-w800.webp'' = Some 49"
    "statSync (ex_disk_cached 49) ''/c/assets/photo.png'' = Some 50"
    "readFileSync (ex_disk_cached 49) ''/c/assets/photo.png'' = Some ''PNGDATA''"
    "\<not> existsSync ex_disk_source ''/c/.cache/images/photo-w800.webp''"
    "readFileSync ex_disk_source ''/c/assets/photo.png'' = Some ''PNGDATA''"
    by (simp_all add: ex_disk_cached_def ex_disk_source_def)
  have mime: "getMimeType (removeDot (toLowerCase (extname ''/c/.cache/images/photo-w800.webp'')))
                = ''image/webp''"
    by (simp add: img_eval_defs)
  have proc: "\<And>fs. fst (processImageBuffer (ex_image_world fs True ex_codec_ok True)
                 sharp_initial ''PNGDATA'' ex_opts)
              = Some \<lparr> buffer = ''small:PNGDATA'', mimeType = ''image/webp'',
                       outWidth = Some 800, outHeight = Some 600 \<rparr>"
    by (simp add: img_eval_defs ex_image_world_def ex_codec_ok_def ex_opts_def)
  have sh: "\<And>fs. fst (getSharp (ex_image_world fs True ex_codec_ok True) sharp_initial)"
    by (simp add: getSharp_def ex_image_world_def sharp_initial_def)
  have args: "resizeOf ex_opts = Some \<lparr> resizeWidth = Some 800, resizeHeight = None \<rparr>"
    "encoderOf ex_opts = Webp 80"
    by (simp_all add: img_eval_defs ex_opts_def)
  have hit: "outcome (getProcessedImage (ex_image_world (ex_disk_cached 50) True ex_codec_ok True)
        sharp_initial ''/c/assets/photo.png'' ''/c/.cache/images'' ex_opts)
      = Inr (Some \<lparr> buffer = ''WEBPDATA'', mimeType = ''image/webp'',
                     outWidth = None, outHeight = None \<rparr>)
     \<and> codecRuns (getProcessedImage (ex_image_world (ex_disk_cached 50) True ex_codec_ok True)
        sharp_initial ''/c/assets/photo.png'' ''/c/.cache/images'' ex_opts) = []"
    using t [where w = "ex_image_world (ex_disk_cached 50) True ex_codec_ok True"
               and c = 50 and s = 50 and b = "''WEBPDATA''"] facts
    by (simp add: mime) (simp add: ex_image_world_def)
  have old: "outcome (getProcessedImage (ex_image_world (ex_disk_cached 49) True ex_codec_ok True)
        sharp_initial ''/c/assets/photo.png'' ''/c/.cache/images'' ex_opts)
      = Inr (Some \<lparr> buffer = ''small:PNGDATA'', mimeType = ''image/webp'',
                     outWidth = Some 800, outHeight = Some 600 \<rparr>)
     \<and> codecRuns (getProcessedImage (ex_image_world (ex_disk_cached 49) True ex_codec_ok True)
        sharp_initial ''/c/assets/photo.png'' ''/c/.cache/images'' ex_opts)
      = [(''PNGDATA'', Some \<lparr> resizeWidth = Some 800, resizeHeight = None \<rparr>, Webp 80)]"
    using t [where w = "ex_image_world (ex_disk_cached 49) True ex_codec_ok True"
               and c = 49 and s = 50 and buf = "''PNGDATA''"] facts
    by (simp add: proc sh args) (simp add: ex_image_world_def)
  have absent: "codecRuns (getProcessedImage (ex_image_world ex_disk_source True ex_codec_ok True)
        sharp_initial ''/c/assets/photo.png'' ''/c/.cache/images'' ex_opts)
      = [(''PNGDATA'', Some \<lparr> resizeWidth = Some 800, resizeHeight = None \<rparr>, Webp 80)]"
    using t [where w = "ex_image_world ex_disk_source True ex_codec_ok True"
               and buf = "''PNGDATA''"] facts
    by (simp add: proc sh args) (simp add: ex_image_world_def)
  from ex_cachePath facts hit old absent show ?thesis by simp
qed

subsection \<open>The fingerprint walk\<close>

lemma filesOf_nonempty: "f \<in> set (filesOf t) \<Longrightarrow> fst f \<noteq> []"
  by (induction t arbitrary: f) auto

lemma qualifying_single:
  "qualifying ([name], m) = (\<not> skipName name \<and> isContentName name)"
  by (simp add: qualifying_def)

lemma qualifying_Cons:
  "names \<noteq> [] \<Longrightarrow> qualifying (name # names, m) = (\<not> skipName name \<and> qualifying (names, m))"
  by (auto simp: qualifying_def)

lemma entryOf_Cons:
  "entryOf dir (name # names, m) = entryOf (pathJoin dir name) (names, m)"
  by (simp add: entryOf_def)

lemma filter_under_dir:
  assumes "\<forall>f \<in> set fs. fst f \<noteq> []"
  shows "map (entryOf dir) (filter qualifying (map (\<lambda>(names, m). (name # names, m)) fs))
           = (if skipName name then []
              else map (entryOf (pathJoin dir name)) (filter qualifying fs))"
  using assms
proof (induction fs)
  case Nil
  then show ?case by simp
next
  case (Cons f fs)
  obtain names m where f: "f = (names, m)" by (cases f)
  with Cons.prems have ne: "names \<noteq> []" by simp
  from Cons have IH: "map (entryOf dir) (filter qualifying (map (\<lambda>(names, m). (name # names, m)) fs))
           = (if skipName name then []
              else map (entryOf (pathJoin dir name)) (filter qualifying fs))"
    by simp
  show ?case
    by (simp add: f IH qualifying_Cons [OF ne] entryOf_Cons)
qed

lemma walkEntry_filesOf:
  "walkEntry dir t = map (entryOf dir) (filter qualifying (filesOf t))"
proof (induction t arbitrary: dir)
  case (File name mtime)
  show ?case by (simp add: qualifying_single entryOf_def)
next
  case (Dir name dirEntries)
  have ne: "\<forall>f \<in> set (concat (map filesOf dirEntries)). fst f \<noteq> []"
    by (auto dest: filesOf_nonempty)
  have "concat (map (walkEntry (pathJoin dir name)) dirEntries)
          = map (entryOf (pathJoin dir name)) (filter qualifying (concat (map filesOf dirEntries)))"
    using Dir.IH by (induction dirEntries) auto
  then show ?case
    by (simp add: filter_under_dir [OF ne])
next
  case (Broken name)
  show ?case by simp
next
  case (Locked name)
  show ?case by simp
qed

lemma walk_allFiles:
  "walk dir root = map (entryOf dir) (filter qualifying (allFiles root))"
proof (cases root)
  case None
  then show ?thesis by (simp add: walk_def allFiles_def)
next
  case (Some es)
  have "concat (map (walkEntry dir) es)
          = map (entryOf dir) (filter qualifying (concat (map filesOf es)))"
    by (induction es) (auto simp: walkEntry_filesOf)
  with Some show ?thesis by (simp add: walk_def allFiles_def)
qed

text \<open>
  Distinct files give distinct entries, when no name contains a slash (as no name that
  \<^verbatim>\<open>readdir\<close> returns does): the decimal rendering can be read back, it has no colon,
  and the path splits at its slashes.
\<close>

lemma digitVal_digitChar: "d < 10 \<Longrightarrow> digitVal (digitChar d) = d"
proof -
  assume "d < 10"
  then have "d \<in> {0, 1, 2, 3, 4, 5, 6, 7, 8, 9}" by auto
  then show ?thesis
    by (auto simp: digitVal_def digitChar_def)
qed

lemma digitChar_not_colon: "d < 10 \<Longrightarrow> digitChar d \<noteq> CHR '':''"
proof -
  assume "d < 10"
  then have "d \<in> {0, 1, 2, 3, 4, 5, 6, 7, 8, 9}" by auto
  then show ?thesis
    by (auto simp: digitChar_def)
qed

lemma digitsValue_snoc: "digitsValue (xs @ [c]) = 10 * digitsValue xs + digitVal c"
  by (simp add: digitsValue_def)

lemma digitsValue_showNat: "digitsValue (showNat n) = n"
proof (induction n rule: showNat.induct)
  case (1 n)
  show ?case
  proof (cases "n < 10")
    case True
    then show ?thesis
      by (simp add: showNat.simps [of n] digitsValue_def digitVal_digitChar)
  next
    case False
    with 1 have "digitsValue (showNat (n div 10)) = n div 10" by simp
    with False show ?thesis
      by (simp add: showNat.simps [of n] digitsValue_snoc digitVal_digitChar)
  qed
qed

lemma showNat_inj: "showNat a = showNat b \<Longrightarrow> a = b"
  by (metis digitsValue_showNat)

lemma showNat_no_colon: "CHR '':'' \<notin> set (showNat n)"
proof (induction n rule: showNat.induct)
  case (1 n)
  show ?case
  proof (cases "n < 10")
    case True
    then show ?thesis
      using digitChar_not_colon [of n] by (simp add: showNat.simps [of n])
  next
    case False
    with 1 have "CHR '':'' \<notin> set (showNat (n div 10))" by simp
    moreover have "digitChar (n mod 10) \<noteq> CHR '':''"
      by (rule digitChar_not_colon) simp
    ultimately show ?thesis
      using False by (simp add: showNat.simps [of n])
  qed
qed

lemma split_at_last:
  assumes "c \<notin> set s" and "c \<notin> set t" and "a @ c # s = b @ c # t"
  shows "a = b \<and> s = t"
proof -
  from assms(3) have "rev s @ c # rev a = rev t @ c # rev b"
    by (metis rev_append rev.simps(2) append_Cons append_Nil append_assoc)
  moreover have "\<And>xs ys us vs. c \<notin> set xs \<Longrightarrow> c \<notin> set ys \<Longrightarrow> xs @ c # us = ys @ c # vs
      \<Longrightarrow> xs = ys \<and> us = vs"
  proof -
    fix xs ys :: "'a list" and us vs
    show "c \<notin> set xs \<Longrightarrow> c \<notin> set ys \<Longrightarrow> xs @ c # us = ys @ c # vs \<Longrightarrow> xs = ys \<and> us = vs"
    proof (induction xs arbitrary: ys)
      case Nil
      then show ?case by (cases ys) auto
    next
      case (Cons x xs)
      then show ?case by (cases ys) auto
    qed
  qed
  ultimately have "rev s = rev t \<and> rev a = rev b"
    using assms(1,2) by (metis set_rev)
  then show ?thesis by simp
qed

lemma foldl_pathJoin:
  "foldl pathJoin dir names = dir @ concat (map (\<lambda>n. ''/'' @ n) names)"
  by (induction names arbitrary: dir) (simp_all add: pathJoin_def)

lemma segment_head:
  assumes "noSlash x" and "rest = [] \<or> hd rest = CHR ''/''"
  shows "takeWhile (\<lambda>c. c \<noteq> CHR ''/'') (x @ rest) = x"
  using assms by (cases rest) (auto simp: noSlash_def takeWhile_append)

lemma segments_shape:
  "concat (map (\<lambda>n. ''/'' @ n) names) = [] \<or> hd (concat (map (\<lambda>n. ''/'' @ n) names)) = CHR ''/''"
  by (cases names) auto

lemma segments_inj:
  assumes "list_all noSlash xs" and "list_all noSlash ys"
    and "concat (map (\<lambda>n. ''/'' @ n) xs) = concat (map (\<lambda>n. ''/'' @ n) ys)"
  shows "xs = ys"
  using assms
proof (induction xs arbitrary: ys)
  case Nil
  then show ?case by (cases ys) auto
next
  case (Cons x xs)
  show ?case
  proof (cases ys)
    case Nil
    with Cons.prems show ?thesis by simp
  next
    case (Cons y ys')
    let ?r = "concat (map (\<lambda>n. ''/'' @ n) xs)"
    let ?r' = "concat (map (\<lambda>n. ''/'' @ n) ys')"
    from Cons.prems(3) Cons have eq: "x @ ?r = y @ ?r'" by simp
    have "takeWhile (\<lambda>c. c \<noteq> CHR ''/'') (x @ ?r) = x"
      using Cons.prems(1) segments_shape [of xs] by (intro segment_head) auto
    moreover have "takeWhile (\<lambda>c. c \<noteq> CHR ''/'') (y @ ?r') = y"
      using Cons.prems(2) Cons segments_shape [of ys'] by (intro segment_head) auto
    ultimately have xy: "x = y" using eq by simp
    with eq have "?r = ?r'" by simp
    with Cons.IH [of ys'] Cons.prems Cons have "xs = ys'" by simp
    with xy Cons show ?thesis by simp
  qed
qed

lemma entryOf_inj:
  assumes "list_all noSlash (fst f)" and "list_all noSlash (fst g)"
    and "entryOf dir f = entryOf dir g"
  shows "f = g"
proof -
  from assms(3) have "foldl pathJoin dir (fst f) @ CHR '':'' # showNat (snd f)
                    = foldl pathJoin dir (fst g) @ CHR '':'' # showNat (snd g)"
    by (simp add: entryOf_def)
  then have "foldl pathJoin dir (fst f) = foldl pathJoin dir (fst g)
           \<and> showNat (snd f) = showNat (snd g)"
    by (rule split_at_last [OF showNat_no_colon showNat_no_colon])
  then have "concat (map (\<lambda>n. ''/'' @ n) (fst f)) = concat (map (\<lambda>n. ''/'' @ n) (fst g))"
    and "snd f = snd g"
    by (simp_all add: foldl_pathJoin showNat_inj)
  with assms(1,2) have "fst f = fst g" and "snd f = snd g"
    by (simp_all add: segments_inj)
  then show ?thesis by (simp add: prod_eq_iff)
qed

lemma entryOf_inj_on:
  assumes "wellNamed r1" and "wellNamed r2"
  shows "inj_on (entryOf dir) (set (allFiles r1) \<union> set (allFiles r2))"
proof (rule inj_onI)
  fix f g
  assume "f \<in> set (allFiles r1) \<union> set (allFiles r2)"
    and "g \<in> set (allFiles r1) \<union> set (allFiles r2)"
    and eq: "entryOf dir f = entryOf dir g"
  with assms have "list_all noSlash (fst f)" and "list_all noSlash (fst g)"
    by (auto simp: wellNamed_def list_all_iff)
  then show "f = g" using eq by (rule entryOf_inj)
qed

lemma mset_contentEntries:
  "mset (contentEntries dir root)
     = image_mset (entryOf dir) (filter_mset qualifying (mset (allFiles root)))"
  by (simp add: contentEntries_def walk_allFiles)

lemma contentEntries_eq_iff:
  assumes "wellNamed r1" and "wellNamed r2"
  shows "contentEntries dir r1 = contentEntries dir r2
     \<longleftrightarrow> filter_mset qualifying (mset (allFiles r1)) = filter_mset qualifying (mset (allFiles r2))"
proof
  assume "contentEntries dir r1 = contentEntries dir r2"
  then have "image_mset (entryOf dir) (filter_mset qualifying (mset (allFiles r1)))
           = image_mset (entryOf dir) (filter_mset qualifying (mset (allFiles r2))) + {#}"
    by (simp flip: mset_contentEntries)
  moreover have "inj_on (entryOf dir)
      (set_mset (filter_mset qualifying (mset (allFiles r1)))
       \<union> set_mset (filter_mset qualifying (mset (allFiles r2))))"
    by (rule inj_on_subset [OF entryOf_inj_on [OF assms]]) auto
  ultimately obtain C where
    "filter_mset qualifying (mset (allFiles r1)) = filter_mset qualifying (mset (allFiles r2)) + C"
    and "{#} = image_mset (entryOf dir) C"
    using image_mset_eq_image_mset_plusD by blast
  then show "filter_mset qualifying (mset (allFiles r1)) = filter_mset qualifying (mset (allFiles r2))"
    by simp
next
  assume "filter_mset qualifying (mset (allFiles r1)) = filter_mset qualifying (mset (allFiles r2))"
  then have "mset (walk dir r1) = mset (walk dir r2)"
    by (simp add: walk_allFiles)
  then show "contentEntries dir r1 = contentEntries dir r2"
    unfolding contentEntries_def
    by (metis properties_for_sort mset_sort sorted_sort)
qed

text \<open>
  The joined text determines the entries when no entry holds a line feed (an entry is never
  empty: it holds a colon). Then, for an injective digest, two trees have the same
  fingerprint exactly when they have the same qualifying files with the same times.
\<close>

lemma split_at_first:
  "c \<notin> set xs \<Longrightarrow> c \<notin> set ys \<Longrightarrow> xs @ c # us = ys @ c # vs \<Longrightarrow> xs = ys \<and> us = vs"
proof (induction xs arbitrary: ys)
  case Nil
  then show ?case by (cases ys) auto
next
  case (Cons x xs)
  then show ?case by (cases ys) auto
qed

lemma joinWith_break_inj:
  assumes "list_all (\<lambda>e. noBreak e \<and> e \<noteq> []) xs" and "list_all (\<lambda>e. noBreak e \<and> e \<noteq> []) ys"
    and "joinWith ''\<newline>'' xs = joinWith ''\<newline>'' ys"
  shows "xs = ys"
  using assms
proof (induction xs arbitrary: ys)
  case Nil
  show ?case
  proof (cases ys)
    case Nil
    then show ?thesis by simp
  next
    case (Cons y ys')
    with Nil.prems show ?thesis by (cases ys') simp_all
  qed
next
  case (Cons x xs')
  from Cons.prems(1) have x: "CHR ''\<newline>'' \<notin> set x" "x \<noteq> []"
    and xs': "list_all (\<lambda>e. noBreak e \<and> e \<noteq> []) xs'"
    by (simp_all add: noBreak_def)
  show ?case
  proof (cases ys)
    case Nil
    with Cons.prems(3) x show ?thesis by (cases xs') simp_all
  next
    case ys: (Cons y ys')
    from Cons.prems(2) ys have y: "CHR ''\<newline>'' \<notin> set y" "y \<noteq> []"
      and ys': "list_all (\<lambda>e. noBreak e \<and> e \<noteq> []) ys'"
      by (simp_all add: noBreak_def)
    show ?thesis
    proof (cases xs')
      case Nil
      show ?thesis
      proof (cases ys')
        case Nil
        with Cons.prems(3) ys \<open>xs' = []\<close> show ?thesis by simp
      next
        case (Cons b zs)
        with Cons.prems(3) ys \<open>xs' = []\<close>
        have "x = y @ CHR ''\<newline>'' # joinWith ''\<newline>'' (b # zs)" by simp
        then have "CHR ''\<newline>'' \<in> set x" by simp
        with x show ?thesis by simp
      qed
    next
      case xs: (Cons a us)
      show ?thesis
      proof (cases ys')
        case Nil
        with Cons.prems(3) ys xs
        have "y = x @ CHR ''\<newline>'' # joinWith ''\<newline>'' (a # us)" by simp
        then have "CHR ''\<newline>'' \<in> set y" by simp
        with y show ?thesis by simp
      next
        case (Cons b zs)
        with Cons.prems(3) ys xs
        have "x @ CHR ''\<newline>'' # joinWith ''\<newline>'' xs'
                = y @ CHR ''\<newline>'' # joinWith ''\<newline>'' ys'"
          by simp
        from split_at_first [OF x(1) y(1) this]
        have "x = y" and "joinWith ''\<newline>'' xs' = joinWith ''\<newline>'' ys'" by simp_all
        with Cons.IH [OF xs' ys'] ys show ?thesis by simp
      qed
    qed
  qed
qed

lemma digitChar_not_break: "d < 10 \<Longrightarrow> digitChar d \<noteq> CHR ''\<newline>''"
proof -
  assume "d < 10"
  then have "d \<in> {0, 1, 2, 3, 4, 5, 6, 7, 8, 9}" by auto
  then show ?thesis
    by (auto simp: digitChar_def)
qed

lemma showNat_noBreak: "noBreak (showNat n)"
proof (induction n rule: showNat.induct)
  case (1 n)
  show ?case
  proof (cases "n < 10")
    case True
    then show ?thesis
      using digitChar_not_break [of n] by (simp add: showNat.simps [of n] noBreak_def)
  next
    case False
    with 1 have "noBreak (showNat (n div 10))" by simp
    moreover have "digitChar (n mod 10) \<noteq> CHR ''\<newline>''"
      by (rule digitChar_not_break) simp
    ultimately show ?thesis
      using False by (simp add: showNat.simps [of n] noBreak_def)
  qed
qed

lemma entryOf_noBreak:
  assumes "noBreak dir" and "list_all noBreak (fst f)"
  shows "noBreak (entryOf dir f) \<and> entryOf dir f \<noteq> []"
proof -
  have "noBreak (concat (map (\<lambda>n. ''/'' @ n) names))" if "list_all noBreak names" for names
    using that by (induction names) (auto simp: noBreak_def)
  with assms showNat_noBreak [of "snd f"] show ?thesis
    by (simp add: entryOf_def foldl_pathJoin noBreak_def)
qed

lemma plainNames_wellNamed: "plainNames root \<Longrightarrow> wellNamed root"
  by (auto simp: plainNames_def wellNamed_def list_all_iff)

lemma contentEntries_plain:
  assumes "noBreak dir" and "plainNames root"
  shows "list_all (\<lambda>e. noBreak e \<and> e \<noteq> []) (contentEntries dir root)"
proof -
  have "noBreak (entryOf dir f) \<and> entryOf dir f \<noteq> []" if "f \<in> set (allFiles root)" for f
  proof (rule entryOf_noBreak [OF assms(1)])
    from that assms(2) show "list_all noBreak (fst f)"
      by (auto simp: plainNames_def list_all_iff)
  qed
  then show ?thesis
    by (auto simp: contentEntries_def walk_allFiles list_all_iff)
qed

lemma computeContentHash_eq_iff:
  assumes "inj digest" and "noBreak dir" and "plainNames ra" and "plainNames rb"
  shows "computeContentHash digest dir ra = computeContentHash digest dir rb
     \<longleftrightarrow> filter_mset qualifying (mset (allFiles ra)) = filter_mset qualifying (mset (allFiles rb))"
proof -
  have "computeContentHash digest dir ra = computeContentHash digest dir rb
     \<longleftrightarrow> joinWith ''\<newline>'' (contentEntries dir ra) = joinWith ''\<newline>'' (contentEntries dir rb)"
    using assms(1) by (auto simp: computeContentHash_def dest: injD)
  also have "\<dots> \<longleftrightarrow> contentEntries dir ra = contentEntries dir rb"
    using joinWith_break_inj [OF contentEntries_plain [OF assms(2,3)]
        contentEntries_plain [OF assms(2,4)]]
    by auto
  also have "\<dots> \<longleftrightarrow> filter_mset qualifying (mset (allFiles ra))
                     = filter_mset qualifying (mset (allFiles rb))"
    by (rule contentEntries_eq_iff [OF plainNames_wellNamed [OF assms(3)]
          plainNames_wellNamed [OF assms(4)]])
  finally show ?thesis .
qed

lemma computeContentHash_same_files:
  assumes "filter_mset qualifying (mset (allFiles ra)) = filter_mset qualifying (mset (allFiles rb))"
  shows "computeContentHash digest dir ra = computeContentHash digest dir rb"
proof -
  from assms have "mset (walk dir ra) = mset (walk dir rb)"
    by (simp add: walk_allFiles)
  then have "contentEntries dir ra = contentEntries dir rb"
    unfolding contentEntries_def
    by (metis properties_for_sort mset_sort sorted_sort)
  then show ?thesis by (simp add: computeContentHash_def)
qed


lemma qualifying_replaced:
  assumes "qualifying f" and "f \<in># A" and "g \<noteq> f" and "B = add_mset g (A - {#f#})"
  shows "filter_mset qualifying A \<noteq> filter_mset qualifying B"
proof -
  from assms have "count (filter_mset qualifying B) f = count A f - 1"
    by simp
  moreover from assms have "count (filter_mset qualifying A) f = count A f"
    by simp
  moreover from assms have "0 < count A f"
    by simp
  ultimately show ?thesis
    by (metis diff_less less_numeral_extra(1) less_not_refl)
qed

text \<open>
  Claim C2, as stated, fails for private files. In this repository private content is the
  directory \<^verbatim>\<open>private\<close> (the search and blog index walkers skip the name); the
  fingerprint walk has no such test, and a file under \<^verbatim>\<open>private\<close> contributes its entry.
\<close>

theorem walk_contributes_private_counterexample:
  "contentEntries ''/c'' (Some [Dir ''private'' [File ''secret.md'' 18], File ''home.md'' 19])
     = [''/c/home.md:19'', ''/c/private/secret.md:18'']"
  by (simp add: contentEntries_def walk_def skipName_def isContentName_def startsWith_def
      endsWith_def pathJoin_def showNat.simps digitChar_def)

text \<open>
  Claim C2, amended. The entries that are hashed are exactly the entries of the
  qualifying files, sorted: the files whose name ends in \<^verbatim>\<open>.md\<close> or \<^verbatim>\<open>.json\<close> and for
  which no name on the way from the root, their own included, begins with a dot or an
  underscore or is \<^verbatim>\<open>assets\<close>, \<^verbatim>\<open>images\<close> or \<^verbatim>\<open>nav.md\<close>. Every qualifying file has
  its entry there, and no other file of the tree has (names without slashes). Nothing is
  said here of a directory named \<^verbatim>\<open>private\<close>: the walk treats it as any other.
\<close>

theorem walk_visits_exactly_qualifying:
  "contentEntries dir root = sort (map (entryOf dir) (filter qualifying (allFiles root)))
   \<and> (\<forall>f \<in> set (allFiles root). qualifying f \<longrightarrow> entryOf dir f \<in> set (contentEntries dir root))
   \<and> (wellNamed root \<longrightarrow>
        (\<forall>f \<in> set (allFiles root). \<not> qualifying f \<longrightarrow> entryOf dir f \<notin> set (contentEntries dir root)))"
proof (intro conjI ballI impI)
  show "contentEntries dir root = sort (map (entryOf dir) (filter qualifying (allFiles root)))"
    by (simp add: contentEntries_def walk_allFiles)
next
  fix f assume "f \<in> set (allFiles root)" and "qualifying f"
  then show "entryOf dir f \<in> set (contentEntries dir root)"
    by (simp add: contentEntries_def walk_allFiles)
next
  fix f assume wf: "wellNamed root" and f: "f \<in> set (allFiles root)" and nq: "\<not> qualifying f"
  show "entryOf dir f \<notin> set (contentEntries dir root)"
  proof
    assume "entryOf dir f \<in> set (contentEntries dir root)"
    then obtain g where g: "g \<in> set (allFiles root)" "qualifying g" "entryOf dir g = entryOf dir f"
      by (auto simp: contentEntries_def walk_allFiles)
    with f have "g = f"
      using entryOf_inj_on [OF wf wf, of dir] by (auto dest: inj_onD)
    with g nq show False by simp
  qed
qed

lemmas walk_eval_defs =
  contentEntries_def walk_def allFiles_def skipName_def isContentName_def startsWith_def
  endsWith_def pathJoin_def showNat.simps digitChar_def qualifying_def entryOf_def
  wellNamed_def noSlash_def

theorem walk_visits_exactly_qualifying_witness:
  "contentEntries ''/c'' (Some ex_tree)
     = [''/c/api/spec.json:16'', ''/c/guides/intro.md:10'', ''/c/home.md:19'',
        ''/c/private/secret.md:18'']
   \<and> qualifying ([''guides'', ''intro.md''], 10)
   \<and> entryOf ''/c'' ([''guides'', ''intro.md''], 10) \<in> set (contentEntries ''/c'' (Some ex_tree))
   \<and> wellNamed (Some ex_tree)
   \<and> \<not> qualifying ([''assets'', ''readme.md''], 14)
   \<and> entryOf ''/c'' ([''assets'', ''readme.md''], 14) \<notin> set (contentEntries ''/c'' (Some ex_tree))
   \<and> \<not> qualifying ([''guides'', ''_config.md''], 12)
   \<and> entryOf ''/c'' ([''guides'', ''_config.md''], 12) \<notin> set (contentEntries ''/c'' (Some ex_tree))"
proof -
  have files: "allFiles (Some ex_tree)
     = [([''guides'', ''intro.md''], 10), ([''guides'', ''notes.txt''], 11),
        ([''guides'', ''_config.md''], 12), ([''nav.md''], 13), ([''assets'', ''readme.md''], 14),
        ([''.git'', ''x.json''], 15), ([''api'', ''spec.json''], 16),
        ([''api'', ''images'', ''i.md''], 17), ([''private'', ''secret.md''], 18),
        ([''home.md''], 19)]"
    by (simp add: allFiles_def ex_tree_def)
  have wf: "wellNamed (Some ex_tree)"
    unfolding wellNamed_def files by (simp add: noSlash_def)
  have q: "qualifying ([''guides'', ''intro.md''], 10)"
    "\<not> qualifying ([''assets'', ''readme.md''], 14)"
    "\<not> qualifying ([''guides'', ''_config.md''], 12)"
    by (simp_all add: qualifying_def skipName_def isContentName_def startsWith_def endsWith_def)
  have m: "([''guides'', ''intro.md''], 10) \<in> set (allFiles (Some ex_tree))"
    "([''assets'', ''readme.md''], 14) \<in> set (allFiles (Some ex_tree))"
    "([''guides'', ''_config.md''], 12) \<in> set (allFiles (Some ex_tree))"
    unfolding files by simp_all
  note t = walk_visits_exactly_qualifying [of "''/c''" "Some ex_tree"]
  have e: "contentEntries ''/c'' (Some ex_tree)
     = [''/c/api/spec.json:16'', ''/c/guides/intro.md:10'', ''/c/home.md:19'',
        ''/c/private/secret.md:18'']"
    using t unfolding files
    by (simp add: qualifying_def skipName_def isContentName_def startsWith_def endsWith_def
        entryOf_def pathJoin_def showNat.simps digitChar_def)
  from t wf q m have "entryOf ''/c'' ([''guides'', ''intro.md''], 10) \<in> set (contentEntries ''/c'' (Some ex_tree))"
    and "entryOf ''/c'' ([''assets'', ''readme.md''], 14) \<notin> set (contentEntries ''/c'' (Some ex_tree))"
    and "entryOf ''/c'' ([''guides'', ''_config.md''], 12) \<notin> set (contentEntries ''/c'' (Some ex_tree))"
    by blast+
  with e wf q show ?thesis by simp
qed









subsection \<open>The aggregate cache\<close>

lemma getCachedLlmsTxt_stores:
  assumes "getCachedLlmsTxt digest w st dir site options = (Inr text, st', calls)"
    and "sectionsGiven options \<or> text \<noteq> []"
  shows "(storedEntry st' options = Some (text, computeContentHash digest dir (contentTree w)))"
  using assms
  by (auto simp: getCachedLlmsTxt_def storedEntry_def Let_def
      split: if_splits option.splits prod.splits)

lemma getCachedLlmsTxt_hit:
  assumes "storedEntry st options = Some (text, computeContentHash digest dir (contentTree w))"
    and "sectionsGiven options \<or> text \<noteq> []"
  shows "getCachedLlmsTxt digest w st dir site options = (Inr text, st, [])"
  using assms
  by (auto simp: getCachedLlmsTxt_def storedEntry_def Let_def
      split: if_splits option.splits prod.splits)

lemma getCachedLlmsTxts_hits:
  assumes "storedEntry st options = Some (text, h)"
    and "sectionsGiven options \<or> text \<noteq> []"
    and "list_all (\<lambda>(w, site). computeContentHash digest dir (contentTree w) = h) later"
  shows "getCachedLlmsTxts digest st dir options later
           = (replicate (length later) (Inr text), st, [])"
  using assms(3)
proof (induction later)
  case Nil
  then show ?case by simp
next
  case (Cons c later)
  obtain w site where c: "c = (w, site)" by (cases c)
  with Cons.prems have h: "computeContentHash digest dir (contentTree w) = h" by simp
  have "getCachedLlmsTxt digest w st dir site options = (Inr text, st, [])"
    using assms(1,2) h by (simp add: getCachedLlmsTxt_hit)
  moreover have "getCachedLlmsTxts digest st dir options later
                   = (replicate (length later) (Inr text), st, [])"
    using Cons by simp
  ultimately show ?case by (simp add: c)
qed

text \<open>
  Claim C6. After a call of \<^verbatim>\<open>getCachedLlmsTxt\<close> has returned a text, every further call
  for the same directory and options that computes the same fingerprint returns that
  text, leaves the state as it is and does not call the generator, whatever the
  generator would now produce. For the full-tree entry the code tests the stored text for
  truthiness, so there the text must not be empty (the generator's output begins with a
  header line).
\<close>

theorem aggregate_get_idempotent:
  assumes "getCachedLlmsTxt digest w0 st0 dir site0 options = (Inr text, st1, calls0)"
    and "sectionsGiven options \<or> text \<noteq> []"
    and "list_all (\<lambda>(w, site). computeContentHash digest dir (contentTree w)
                                = computeContentHash digest dir (contentTree w0)) later"
  shows "getCachedLlmsTxts digest st1 dir options later
           = (replicate (length later) (Inr text), st1, [])"
  using getCachedLlmsTxt_stores [OF assms(1,2)] assms(2,3)
  by (rule getCachedLlmsTxts_hits)

lemma ex_hashes:
  "computeContentHash (\<lambda>s. s) ''/c'' (Some ex_site1) = ex_hash1"
  "computeContentHash (\<lambda>s. s) ''/c'' (Some ex_site2) = ex_hash2"
  by (simp_all add: computeContentHash_def walk_eval_defs ex_site1_def ex_site2_def
      ex_hash1_def ex_hash2_def)

lemma ex_section_keys:
  "sectionsGiven ex_api" "sectionKeyOf ex_api = ''api''" "sortedOptions ex_api = ex_api"
  "sectionsGiven ex_guides" "sectionKeyOf ex_guides = ''guides''" "\<not> sectionsGiven ex_full"
  by (simp_all add: sectionsGiven_def sectionKeyOf_def sortedOptions_def ex_api_def ex_guides_def
      ex_full_def)

text \<open>
  Claim C1, as stated, fails. The entry for the section \<^verbatim>\<open>api\<close> is stored with the
  fingerprint of the whole tree; after a change of \<^verbatim>\<open>guides/intro.md\<close> alone (the files
  under \<^verbatim>\<open>api\<close> are the same), the next call for \<^verbatim>\<open>api\<close> calls the generator again and
  returns its new text.
\<close>

theorem section_entry_invalidated_by_other_section_counterexample:
  "getCachedLlmsTxt (\<lambda>s. s) (ex_llms_world ''api text v1'' ex_site1 0) llms_initial
      ''/c'' ''f0'' ex_api
     = (Inr ''api text v1'', ex_llms_s1, [(''/c'', ''f0'', ex_api)])
   \<and> filter (\<lambda>f. hd (fst f) = ''api'') (allFiles (Some ex_site2))
       = filter (\<lambda>f. hd (fst f) = ''api'') (allFiles (Some ex_site1))
   \<and> getCachedLlmsTxt (\<lambda>s. s) (ex_llms_world ''api text v2'' ex_site2 5) ex_llms_s1
      ''/c'' ''f0'' ex_api
     = (Inr ''api text v2'', ex_llms_s2, [(''/c'', ''f0'', ex_api)])"
proof -
  have "filter (\<lambda>f. hd (fst f) = ''api'') (allFiles (Some ex_site2))
       = filter (\<lambda>f. hd (fst f) = ''api'') (allFiles (Some ex_site1))"
    by (simp add: allFiles_def ex_site1_def ex_site2_def)
  then show ?thesis
    by (simp add: getCachedLlmsTxt_def ex_section_keys ex_llms_world_def ex_hashes llms_initial_def
        ex_llms_s1_def ex_llms_s2_def ex_hash1_def ex_hash2_def)
qed

text \<open>
  Claim C1, amended. A section entry is kept under its own key: a call for a set of
  sections, a first one too, changes neither the entry of any other key nor the full-tree
  entry, and a full-tree call changes no section entry. But every entry is checked against
  the fingerprint of the whole content tree: the stored text is returned, with the state
  as it was and no call of the generator, when that fingerprint is the stored one, and the
  generator is called again when it differs. So an entry stored for a tree is a hit while
  the tree has the same qualifying files with the same times; and, for an injective digest
  and names without slash and line feed (no line feed in the content directory's path),
  any difference in the qualifying files or their times makes the next call for the
  section call the generator again, wherever in the tree the difference is.
\<close>

theorem section_entries_keyed_apart_validated_on_whole_tree:
  "(sectionsGiven options \<longrightarrow>
        (\<forall>k. k \<noteq> sectionKeyOf options
            \<longrightarrow> sectionCache (fst (snd (getCachedLlmsTxt digest w st dir site options))) k
                  = sectionCache st k)
      \<and> cachedLlmsTxt (fst (snd (getCachedLlmsTxt digest w st dir site options)))
           = cachedLlmsTxt st
      \<and> cachedLlmsHash (fst (snd (getCachedLlmsTxt digest w st dir site options)))
           = cachedLlmsHash st
      \<and> cachedLlmsGeneratedAt (fst (snd (getCachedLlmsTxt digest w st dir site options)))
           = cachedLlmsGeneratedAt st)
   \<and> (\<not> sectionsGiven full
        \<longrightarrow> sectionCache (fst (snd (getCachedLlmsTxt digest w st dir site full)))
              = sectionCache st)
   \<and> (sectionsGiven options \<and> sectionCache st (sectionKeyOf options) = Some (body, h) \<longrightarrow>
        (h = computeContentHash digest dir (contentTree w)
            \<longrightarrow> getCachedLlmsTxt digest w st dir site options = (Inr body, st, []))
      \<and> (h \<noteq> computeContentHash digest dir (contentTree w)
            \<longrightarrow> snd (snd (getCachedLlmsTxt digest w st dir site options))
                  = [(dir, site, sortedOptions options)]))
   \<and> (sectionsGiven options
        \<and> sectionCache st (sectionKeyOf options)
            = Some (body, computeContentHash digest dir stored)
        \<and> filter_mset qualifying (mset (allFiles (contentTree w)))
            = filter_mset qualifying (mset (allFiles stored))
        \<longrightarrow> getCachedLlmsTxt digest w st dir site options = (Inr body, st, []))
   \<and> (sectionsGiven options
        \<and> sectionCache st (sectionKeyOf options)
            = Some (body, computeContentHash digest dir stored)
        \<and> inj digest \<and> noBreak dir \<and> plainNames stored \<and> plainNames (contentTree w)
        \<and> filter_mset qualifying (mset (allFiles (contentTree w)))
            \<noteq> filter_mset qualifying (mset (allFiles stored))
        \<longrightarrow> snd (snd (getCachedLlmsTxt digest w st dir site options))
              = [(dir, site, sortedOptions options)])"
proof (intro conjI impI allI)
  fix k assume "sectionsGiven options" and "k \<noteq> sectionKeyOf options"
  then show "sectionCache (fst (snd (getCachedLlmsTxt digest w st dir site options))) k
          = sectionCache st k"
    by (simp add: getCachedLlmsTxt_def Let_def split: option.splits prod.splits)
next
  assume "sectionsGiven options"
  then show "cachedLlmsTxt (fst (snd (getCachedLlmsTxt digest w st dir site options)))
          = cachedLlmsTxt st"
    by (simp add: getCachedLlmsTxt_def Let_def split: option.splits prod.splits)
next
  assume "sectionsGiven options"
  then show "cachedLlmsHash (fst (snd (getCachedLlmsTxt digest w st dir site options)))
          = cachedLlmsHash st"
    by (simp add: getCachedLlmsTxt_def Let_def split: option.splits prod.splits)
next
  assume "sectionsGiven options"
  then show "cachedLlmsGeneratedAt (fst (snd (getCachedLlmsTxt digest w st dir site options)))
          = cachedLlmsGeneratedAt st"
    by (simp add: getCachedLlmsTxt_def Let_def split: option.splits prod.splits)
next
  assume "\<not> sectionsGiven full"
  then show "sectionCache (fst (snd (getCachedLlmsTxt digest w st dir site full)))
               = sectionCache st"
    by (simp add: getCachedLlmsTxt_def Let_def split: option.splits prod.splits)
next
  assume "sectionsGiven options \<and> sectionCache st (sectionKeyOf options) = Some (body, h)"
    and "h = computeContentHash digest dir (contentTree w)"
  then show "getCachedLlmsTxt digest w st dir site options = (Inr body, st, [])"
    by (simp add: getCachedLlmsTxt_def)
next
  assume "sectionsGiven options \<and> sectionCache st (sectionKeyOf options) = Some (body, h)"
    and "h \<noteq> computeContentHash digest dir (contentTree w)"
  then show "snd (snd (getCachedLlmsTxt digest w st dir site options))
                     = [(dir, site, sortedOptions options)]"
    by (simp add: getCachedLlmsTxt_def split: option.splits)
next
  assume a: "sectionsGiven options
        \<and> sectionCache st (sectionKeyOf options)
            = Some (body, computeContentHash digest dir stored)
        \<and> filter_mset qualifying (mset (allFiles (contentTree w)))
            = filter_mset qualifying (mset (allFiles stored))"
  then have "computeContentHash digest dir (contentTree w) = computeContentHash digest dir stored"
    by (intro computeContentHash_same_files) simp
  with a show "getCachedLlmsTxt digest w st dir site options = (Inr body, st, [])"
    by (simp add: getCachedLlmsTxt_def)
next
  assume a: "sectionsGiven options
        \<and> sectionCache st (sectionKeyOf options)
            = Some (body, computeContentHash digest dir stored)
        \<and> inj digest \<and> noBreak dir \<and> plainNames stored \<and> plainNames (contentTree w)
        \<and> filter_mset qualifying (mset (allFiles (contentTree w)))
            \<noteq> filter_mset qualifying (mset (allFiles stored))"
  then have "computeContentHash digest dir (contentTree w) \<noteq> computeContentHash digest dir stored"
    by (simp add: computeContentHash_eq_iff)
  with a show "snd (snd (getCachedLlmsTxt digest w st dir site options))
                     = [(dir, site, sortedOptions options)]"
    by (auto simp add: getCachedLlmsTxt_def split: option.splits)
qed

lemma ex_site_files:
  "allFiles (Some ex_site1) = [([''api'', ''users.md''], 1), ([''guides'', ''intro.md''], 1)]"
  "allFiles (Some ex_site2) = [([''api'', ''users.md''], 1), ([''guides'', ''intro.md''], 2)]"
  by (simp_all add: allFiles_def ex_site1_def ex_site2_def)

lemma ex_site_plainNames: "plainNames (Some ex_site1)" "plainNames (Some ex_site2)"
  unfolding plainNames_def ex_site_files by (simp_all add: noSlash_def noBreak_def)

lemma ex_site_changed:
  "filter_mset qualifying (mset (allFiles (Some ex_site2)))
     \<noteq> filter_mset qualifying (mset (allFiles (Some ex_site1)))"
proof -
  have "qualifying ([''guides'', ''intro.md''], 1)"
    by (simp add: qualifying_def skipName_def isContentName_def startsWith_def endsWith_def)
  moreover have "([''guides'', ''intro.md''], 1) \<in># mset (allFiles (Some ex_site1))"
    unfolding ex_site_files by simp
  moreover have "([''guides'', ''intro.md''], 2) \<noteq> ([''guides'', ''intro.md''], 1::nat)"
    by simp
  moreover have "mset (allFiles (Some ex_site2))
       = add_mset ([''guides'', ''intro.md''], 2)
           (mset (allFiles (Some ex_site1)) - {#([''guides'', ''intro.md''], 1)#})"
    unfolding ex_site_files by simp
  ultimately have "filter_mset qualifying (mset (allFiles (Some ex_site1)))
     \<noteq> filter_mset qualifying (mset (allFiles (Some ex_site2)))"
    by (rule qualifying_replaced)
  then show ?thesis by simp
qed

theorem section_entries_keyed_apart_validated_on_whole_tree_witness:
  "sectionsGiven ex_api
   \<and> ''guides'' \<noteq> sectionKeyOf ex_api
   \<and> sectionCache (fst (snd (getCachedLlmsTxt (\<lambda>s. s) (ex_llms_world ''api text v1'' ex_site1 0)
         llms_initial ''/c'' ''f0'' ex_api))) ''guides'' = sectionCache llms_initial ''guides''
   \<and> cachedLlmsTxt (fst (snd (getCachedLlmsTxt (\<lambda>s. s) (ex_llms_world ''api text v1'' ex_site1 0)
         llms_initial ''/c'' ''f0'' ex_api))) = cachedLlmsTxt llms_initial
   \<and> \<not> sectionsGiven ex_full
   \<and> sectionCache (fst (snd (getCachedLlmsTxt (\<lambda>s. s) (ex_llms_world ''other'' ex_site2 7)
         ex_llms_s1 ''/c'' ''f0'' ex_full))) = sectionCache ex_llms_s1
   \<and> sectionCache ex_llms_s1 (sectionKeyOf ex_api)
       = Some (''api text v1'', computeContentHash (\<lambda>s. s) ''/c'' (Some ex_site1))
   \<and> filter_mset qualifying (mset (allFiles (contentTree (ex_llms_world ''other'' ex_site1 7))))
       = filter_mset qualifying (mset (allFiles (Some ex_site1)))
   \<and> getCachedLlmsTxt (\<lambda>s. s) (ex_llms_world ''other'' ex_site1 7) ex_llms_s1 ''/c'' ''f0'' ex_api
       = (Inr ''api text v1'', ex_llms_s1, [])
   \<and> inj (\<lambda>s :: string. s) \<and> noBreak ''/c'' \<and> plainNames (Some ex_site1)
   \<and> plainNames (contentTree (ex_llms_world ''other'' ex_site2 7))
   \<and> filter_mset qualifying (mset (allFiles (contentTree (ex_llms_world ''other'' ex_site2 7))))
       \<noteq> filter_mset qualifying (mset (allFiles (Some ex_site1)))
   \<and> computeContentHash (\<lambda>s. s) ''/c'' (Some ex_site1)
       \<noteq> computeContentHash (\<lambda>s. s) ''/c'' (contentTree (ex_llms_world ''other'' ex_site2 7))
   \<and> snd (snd (getCachedLlmsTxt (\<lambda>s. s) (ex_llms_world ''other'' ex_site2 7) ex_llms_s1
         ''/c'' ''f0'' ex_api)) = [(''/c'', ''f0'', ex_api)]
   \<and> sectionCache (fst (snd (getCachedLlmsTxt (\<lambda>s. s) (ex_llms_world ''other'' ex_site2 7)
         ex_llms_s1 ''/c'' ''f0'' ex_api))) ''guides'' = sectionCache ex_llms_s1 ''guides''
   \<and> sectionCache ex_llms_s1 (sectionKeyOf ex_api) = Some (''api text v1'', ex_hash1)
   \<and> ex_hash1 = computeContentHash (\<lambda>s. s) ''/c'' (contentTree (ex_llms_world ''third'' ex_site1 9))
   \<and> getCachedLlmsTxt (\<lambda>s. s) (ex_llms_world ''third'' ex_site1 9) ex_llms_s1 ''/c'' ''f0'' ex_api
       = (Inr ''api text v1'', ex_llms_s1, [])
   \<and> ex_hash1 \<noteq> computeContentHash (\<lambda>s. s) ''/c'' (contentTree (ex_llms_world ''third'' ex_site2 9))
   \<and> snd (snd (getCachedLlmsTxt (\<lambda>s. s) (ex_llms_world ''third'' ex_site2 9) ex_llms_s1
         ''/c'' ''f0'' ex_api)) = [(''/c'', ''f0'', ex_api)]"
proof -
  have k: "sectionCache ex_llms_s1 (sectionKeyOf ex_api)
       = Some (''api text v1'', computeContentHash (\<lambda>s. s) ''/c'' (Some ex_site1))"
    by (simp add: ex_section_keys ex_llms_s1_def ex_hashes)
  have kh: "sectionCache ex_llms_s1 (sectionKeyOf ex_api) = Some (''api text v1'', ex_hash1)"
    by (simp add: ex_section_keys ex_llms_s1_def)
  have heq: "ex_hash1 = computeContentHash (\<lambda>s. s) ''/c'' (contentTree (ex_llms_world ''third'' ex_site1 9))"
    by (simp add: ex_llms_world_def ex_hashes)
  have hdiff: "ex_hash1 \<noteq> computeContentHash (\<lambda>s. s) ''/c'' (contentTree (ex_llms_world ''third'' ex_site2 9))"
    by (simp add: ex_llms_world_def ex_hashes ex_hash1_def ex_hash2_def)
  have g: "''guides'' \<noteq> sectionKeyOf ex_api"
    by (simp add: ex_section_keys)
  have i: "inj (\<lambda>s :: string. s)" by simp
  have b: "noBreak ''/c''" by (simp add: noBreak_def)
  have t1: "contentTree (ex_llms_world ''other'' ex_site1 7) = Some ex_site1"
    and t2: "contentTree (ex_llms_world ''other'' ex_site2 7) = Some ex_site2"
    by (simp_all add: ex_llms_world_def)
  have same: "filter_mset qualifying (mset (allFiles (contentTree (ex_llms_world ''other'' ex_site1 7))))
       = filter_mset qualifying (mset (allFiles (Some ex_site1)))"
    by (simp add: t1)
  have p2: "plainNames (contentTree (ex_llms_world ''other'' ex_site2 7))"
    by (simp add: t2 ex_site_plainNames)
  have changed: "filter_mset qualifying (mset (allFiles (contentTree (ex_llms_world ''other'' ex_site2 7))))
       \<noteq> filter_mset qualifying (mset (allFiles (Some ex_site1)))"
    by (simp add: t2 ex_site_changed)
  have hne: "computeContentHash (\<lambda>s. s) ''/c'' (Some ex_site1)
       \<noteq> computeContentHash (\<lambda>s. s) ''/c'' (contentTree (ex_llms_world ''other'' ex_site2 7))"
    by (simp add: t2 ex_hashes ex_hash1_def ex_hash2_def)
  note t = section_entries_keyed_apart_validated_on_whole_tree
    [where digest = "\<lambda>s. s" and dir = "''/c''" and site = "''f0''" and options = ex_api
       and full = ex_full]
  from t [where w = "ex_llms_world ''api text v1'' ex_site1 0" and st = llms_initial]
    ex_section_keys(1) g
  have a: "sectionCache (fst (snd (getCachedLlmsTxt (\<lambda>s. s) (ex_llms_world ''api text v1'' ex_site1 0)
         llms_initial ''/c'' ''f0'' ex_api))) ''guides'' = sectionCache llms_initial ''guides''"
    and a': "cachedLlmsTxt (fst (snd (getCachedLlmsTxt (\<lambda>s. s) (ex_llms_world ''api text v1'' ex_site1 0)
         llms_initial ''/c'' ''f0'' ex_api))) = cachedLlmsTxt llms_initial"
    by blast+
  from t [where w = "ex_llms_world ''other'' ex_site1 7" and st = ex_llms_s1
      and body = "''api text v1''" and stored = "Some ex_site1"]
    ex_section_keys(1) k same
  have c: "getCachedLlmsTxt (\<lambda>s. s) (ex_llms_world ''other'' ex_site1 7) ex_llms_s1 ''/c'' ''f0'' ex_api
       = (Inr ''api text v1'', ex_llms_s1, [])"
    by blast
  from t [where w = "ex_llms_world ''other'' ex_site2 7" and st = ex_llms_s1
      and body = "''api text v1''" and stored = "Some ex_site1"]
    ex_section_keys(1,6) k g i b ex_site_plainNames(1) p2 changed
  have d: "snd (snd (getCachedLlmsTxt (\<lambda>s. s) (ex_llms_world ''other'' ex_site2 7) ex_llms_s1
         ''/c'' ''f0'' ex_api)) = [(''/c'', ''f0'', sortedOptions ex_api)]"
    and e: "sectionCache (fst (snd (getCachedLlmsTxt (\<lambda>s. s) (ex_llms_world ''other'' ex_site2 7)
         ex_llms_s1 ''/c'' ''f0'' ex_api))) ''guides'' = sectionCache ex_llms_s1 ''guides''"
    and f: "sectionCache (fst (snd (getCachedLlmsTxt (\<lambda>s. s) (ex_llms_world ''other'' ex_site2 7)
         ex_llms_s1 ''/c'' ''f0'' ex_full))) = sectionCache ex_llms_s1"
    by blast+
  from t [where w = "ex_llms_world ''third'' ex_site1 9" and st = ex_llms_s1
      and body = "''api text v1''" and h = ex_hash1]
    ex_section_keys(1) kh heq
  have c': "getCachedLlmsTxt (\<lambda>s. s) (ex_llms_world ''third'' ex_site1 9) ex_llms_s1 ''/c'' ''f0'' ex_api
       = (Inr ''api text v1'', ex_llms_s1, [])"
    by blast
  from t [where w = "ex_llms_world ''third'' ex_site2 9" and st = ex_llms_s1
      and body = "''api text v1''" and h = ex_hash1]
    ex_section_keys(1) kh hdiff
  have d': "snd (snd (getCachedLlmsTxt (\<lambda>s. s) (ex_llms_world ''third'' ex_site2 9) ex_llms_s1
         ''/c'' ''f0'' ex_api)) = [(''/c'', ''f0'', sortedOptions ex_api)]"
    by blast
  from ex_section_keys(1,3,6) g a a' f k same c i b ex_site_plainNames(1) p2 changed hne d e
    kh heq hdiff c' d'
  show ?thesis by simp
qed

theorem aggregate_get_idempotent_witness:
  "getCachedLlmsTxt (\<lambda>s. s) (ex_llms_world ''full text v1'' ex_site1 3) llms_initial
      ''/c'' ''f0'' ex_full
     = (Inr ''full text v1'',
        \<lparr> cachedLlmsTxt = Some ''full text v1'', cachedLlmsHash = Some ex_hash1,
          cachedLlmsGeneratedAt = 3, sectionCache = Map.empty \<rparr>,
        [(''/c'', ''f0'', ex_full)])
   \<and> ''full text v1'' \<noteq> []
   \<and> computeContentHash (\<lambda>s. s) ''/c'' (contentTree (ex_llms_world ''full text v2'' ex_site1 4))
       = computeContentHash (\<lambda>s. s) ''/c'' (contentTree (ex_llms_world ''full text v1'' ex_site1 3))
   \<and> getCachedLlmsTxts (\<lambda>s. s)
        \<lparr> cachedLlmsTxt = Some ''full text v1'', cachedLlmsHash = Some ex_hash1,
          cachedLlmsGeneratedAt = 3, sectionCache = Map.empty \<rparr>
        ''/c'' ex_full
        [(ex_llms_world ''full text v2'' ex_site1 4, ''f0''),
         (ex_llms_world ''full text v3'' ex_site1 5, ''f0'')]
       = ([Inr ''full text v1'', Inr ''full text v1''],
          \<lparr> cachedLlmsTxt = Some ''full text v1'', cachedLlmsHash = Some ex_hash1,
            cachedLlmsGeneratedAt = 3, sectionCache = Map.empty \<rparr>,
          [])
   \<and> sectionsGiven ex_api
   \<and> getCachedLlmsTxts (\<lambda>s. s) ex_llms_s1 ''/c'' ex_api
        [(ex_llms_world ''api text v2'' ex_site1 4, ''f0'')]
       = ([Inr ''api text v1''], ex_llms_s1, [])"
proof -
  have first: "getCachedLlmsTxt (\<lambda>s. s) (ex_llms_world ''full text v1'' ex_site1 3) llms_initial
      ''/c'' ''f0'' ex_full
     = (Inr ''full text v1'',
        \<lparr> cachedLlmsTxt = Some ''full text v1'', cachedLlmsHash = Some ex_hash1,
          cachedLlmsGeneratedAt = 3, sectionCache = Map.empty \<rparr>,
        [(''/c'', ''f0'', ex_full)])"
    by (simp add: getCachedLlmsTxt_def ex_section_keys ex_llms_world_def ex_hashes llms_initial_def)
  have ne: "sectionsGiven ex_full \<or> ''full text v1'' \<noteq> []" by simp
  have same: "list_all (\<lambda>(w, site). computeContentHash (\<lambda>s. s) ''/c'' (contentTree w)
        = computeContentHash (\<lambda>s. s) ''/c'' (contentTree (ex_llms_world ''full text v1'' ex_site1 3)))
      [(ex_llms_world ''full text v2'' ex_site1 4, ''f0''),
       (ex_llms_world ''full text v3'' ex_site1 5, ''f0'')]"
    by (simp add: ex_llms_world_def)
  have first_api: "getCachedLlmsTxt (\<lambda>s. s) (ex_llms_world ''api text v1'' ex_site1 0) llms_initial
      ''/c'' ''f0'' ex_api
     = (Inr ''api text v1'', ex_llms_s1, [(''/c'', ''f0'', ex_api)])"
    by (simp add: getCachedLlmsTxt_def ex_section_keys ex_llms_world_def ex_hashes llms_initial_def
        ex_llms_s1_def)
  have ne_api: "sectionsGiven ex_api \<or> ''api text v1'' \<noteq> []"
    by (simp add: ex_section_keys)
  have same_api: "list_all (\<lambda>(w, site). computeContentHash (\<lambda>s. s) ''/c'' (contentTree w)
        = computeContentHash (\<lambda>s. s) ''/c'' (contentTree (ex_llms_world ''api text v1'' ex_site1 0)))
      [(ex_llms_world ''api text v2'' ex_site1 4, ''f0'')]"
    by (simp add: ex_llms_world_def)
  show ?thesis
    using aggregate_get_idempotent [OF first ne same]
      aggregate_get_idempotent [OF first_api ne_api same_api] first
    by (simp add: ex_section_keys ex_llms_world_def)
qed

end
